theory Spec2Isabelle
  imports Main
begin

section \<open>Player Entry Alert API: a shallow embedding of server.js\<close>

text \<open>
  The server reads JSON documents of the statistics provider and keeps a registry of
  watchers. The embedding follows the JavaScript function by function. Conventions:
  \<^item> a property that may be missing (\<open>undefined\<close> or \<open>null\<close>) is an \<open>option\<close>;
    for \<open>cooldownSec\<close> and \<open>stopAfterAlert\<close>, which have destructuring defaults,
    \<open>None\<close> is the absent property only (an explicit \<open>null\<close> is not replaced by the
    default and behaves as \<open>Some 0\<close> and \<open>Some False\<close>);
  \<^item> numbers are mathematical integers: the counters of the feed are counts, the clock
    \<open>Date.now()\<close> is a number of milliseconds;
  \<^item> a string is the list of the bytes of its UTF-8 encoding; the strings are well-formed
    Unicode, so that equality, emptiness and containment of the byte lists are those of the
    JavaScript strings;
  \<^item> \<open>String.prototype.toLowerCase\<close> belongs to the JavaScript runtime, not to the
    server: every function that calls it takes it as its first argument, named
    \<open>toLowerCase\<close>, and what is proved holds whatever that function is;
  \<^item> a thrown exception is the \<open>Inl\<close> branch of a sum.
\<close>

subsection \<open>JavaScript strings and truthiness\<close>

fun startsWith :: "string \<Rightarrow> string \<Rightarrow> bool" where
  "startsWith _ [] = True"
| "startsWith [] (_ # _) = False"
| "startsWith (c # cs) (n # ns) = (c = n \<and> startsWith cs ns)"

text \<open>\<open>hay.includes(needle)\<close>: the needle occurs as a contiguous block.\<close>

fun str_includes :: "string \<Rightarrow> string \<Rightarrow> bool" where
  "str_includes [] needle = (needle = [])"
| "str_includes (c # cs) needle = (startsWith (c # cs) needle \<or> str_includes cs needle)"

text \<open>Truthiness of a possibly missing string: missing and \<open>''\<close> are falsy.\<close>

fun truthy_str :: "string option \<Rightarrow> bool" where
  "truthy_str None = False"
| "truthy_str (Some s) = (s \<noteq> [])"

text \<open>\<open>x || ''\<close> on a possibly missing string.\<close>

fun or_empty :: "string option \<Rightarrow> string" where
  "or_empty None = []"
| "or_empty (Some s) = s"

text \<open>\<open>x || null\<close> on a possibly missing string: a falsy value becomes \<open>null\<close>.\<close>

definition or_null :: "string option \<Rightarrow> string option" where
  "or_null x = (if truthy_str x then x else None)"

text \<open>\<open>(x || 0) > 0\<close> on a possibly missing number.\<close>

fun positive :: "int option \<Rightarrow> bool" where
  "positive None = False"
| "positive (Some n) = (0 < n)"

subsection \<open>The live feed\<close>

record batting =
  atBats :: "int option"
  plateAppearances :: "int option"
  hits :: "int option"
  runs :: "int option"
  rbi :: "int option"

record fielding =
  putOuts :: "int option"
  assists :: "int option"
  chances :: "int option"

record pitching =
  battersFaced :: "int option"
  pitchesThrown :: "int option"
  inningsPitched :: "string option"

record stats =
  statsBatting :: "batting option"
  statsFielding :: "fielding option"
  statsPitching :: "pitching option"

text \<open>
  A roster entry \<open>p\<close>: \<open>p.person.fullName\<close>, \<open>p.battingOrder\<close>,
  \<open>p.position.abbreviation\<close>, \<open>p.stats\<close>.
\<close>

record player =
  fullName :: "string option"
  battingOrder :: "string option"
  positionAbbreviation :: "string option"
  playerStats :: "stats option"

text \<open>A play \<open>p\<close> of \<open>liveData.plays.allPlays\<close>: \<open>p.result.description\<close>.\<close>

record play =
  description :: "string option"

text \<open>One side of the box score: \<open>Object.values(side.players || {})\<close>, in order.\<close>

record boxside =
  players :: "player list"

record feed =
  detailedState :: "string option"
  homeName :: "string option"
  awayName :: "string option"
  boxHome :: "boxside option"
  boxAway :: "boxside option"
  allPlays :: "play list option"

subsection \<open>Entry detector\<close>

definition empty_batting :: batting where
  "empty_batting = \<lparr>atBats = None, plateAppearances = None, hits = None, runs = None, rbi = None\<rparr>"

definition empty_fielding :: fielding where
  "empty_fielding = \<lparr>putOuts = None, assists = None, chances = None\<rparr>"

definition empty_pitching :: pitching where
  "empty_pitching = \<lparr>battersFaced = None, pitchesThrown = None, inningsPitched = None\<rparr>"

text \<open>\<open>match?.stats?.batting || {}\<close> and its two siblings.\<close>

definition bat_of :: "player \<Rightarrow> batting" where
  "bat_of m = (case playerStats m of None \<Rightarrow> empty_batting
     | Some st \<Rightarrow> (case statsBatting st of None \<Rightarrow> empty_batting | Some b \<Rightarrow> b))"

definition fld_of :: "player \<Rightarrow> fielding" where
  "fld_of m = (case playerStats m of None \<Rightarrow> empty_fielding
     | Some st \<Rightarrow> (case statsFielding st of None \<Rightarrow> empty_fielding | Some f \<Rightarrow> f))"

definition pit_of :: "player \<Rightarrow> pitching" where
  "pit_of m = (case playerStats m of None \<Rightarrow> empty_pitching
     | Some st \<Rightarrow> (case statsPitching st of None \<Rightarrow> empty_pitching | Some p \<Rightarrow> p))"

definition battingActivity :: "batting \<Rightarrow> bool" where
  "battingActivity bat \<longleftrightarrow>
     positive (atBats bat) \<or> positive (plateAppearances bat) \<or> positive (hits bat)
     \<or> positive (runs bat) \<or> positive (rbi bat)"

definition fieldingActivity :: "fielding \<Rightarrow> bool" where
  "fieldingActivity fld \<longleftrightarrow>
     positive (putOuts fld) \<or> positive (assists fld) \<or> positive (chances fld)"

definition pitchingActivity :: "pitching \<Rightarrow> bool" where
  "pitchingActivity pit \<longleftrightarrow>
     positive (battersFaced pit) \<or> positive (pitchesThrown pit)
     \<or> (truthy_str (inningsPitched pit) \<and> inningsPitched pit \<noteq> Some ''0.0'')"

fun playerAppearedFromBoxscore :: "player option \<Rightarrow> bool" where
  "playerAppearedFromBoxscore None = False"
| "playerAppearedFromBoxscore (Some m) =
     (truthy_str (battingOrder m) \<or> battingActivity (bat_of m)
      \<or> fieldingActivity (fld_of m) \<or> pitchingActivity (pit_of m))"

definition entry_keywords :: "string list" where
  "entry_keywords = [''defensive substitution'', ''pinch-hits'', ''pinch hits'',
     ''pinch-running'', ''pinch runs'', ''enters the game'', ''replaces'']"

text \<open>The \<open>for\<close> loop over the plays, with the needle already lowered.\<close>

fun scan_plays ::
    "(string \<Rightarrow> string) \<Rightarrow> string \<Rightarrow> play list \<Rightarrow> bool" where
  "scan_plays toLowerCase needle [] = False"
| "scan_plays toLowerCase needle (p # ps) =
     (let desc = toLowerCase (or_empty (description p)) in
      if \<not> str_includes desc needle then scan_plays toLowerCase needle ps
      else if list_ex (\<lambda>k. str_includes desc k) entry_keywords then True
      else scan_plays toLowerCase needle ps)"

definition playerAppearedFromPlays ::
    "(string \<Rightarrow> string) \<Rightarrow> play list option \<Rightarrow> string \<Rightarrow> bool" where
  "playerAppearedFromPlays toLowerCase plays playerName =
     (case plays of None \<Rightarrow> False
      | Some ps \<Rightarrow> if ps = [] \<or> playerName = [] then False
                   else scan_plays toLowerCase (toLowerCase playerName) ps)"

text \<open>
  The expression both status functions compute:
  \<open>playerAppearedFromBoxscore(match) || playerAppearedFromPlays(allPlays, playerName)\<close>.
\<close>

definition entered ::
    "(string \<Rightarrow> string) \<Rightarrow> player option \<Rightarrow> play list option \<Rightarrow> string \<Rightarrow> bool" where
  "entered toLowerCase match plays playerName \<longleftrightarrow>
     playerAppearedFromBoxscore match \<or> playerAppearedFromPlays toLowerCase plays playerName"

text \<open>
  \<open>entries.find(p => p?.person?.fullName?.toLowerCase() === playerName.toLowerCase())\<close>:
  an entry without a full name never matches.
\<close>

definition findByName ::
    "(string \<Rightarrow> string) \<Rightarrow> string \<Rightarrow> boxside \<Rightarrow> player option" where
  "findByName toLowerCase playerName s =
     find (\<lambda>p. case fullName p of None \<Rightarrow> False
                | Some n \<Rightarrow> toLowerCase n = toLowerCase playerName) (players s)"

subsection \<open>Errors\<close>

text \<open>
  The exceptions of the server, named as the specification names them. A provider error
  carries the HTTP status of the response, when there is one, and the message.
\<close>

datatype error =
  ResolutionError string
| NoEventFoundError
| ProviderError "int option" string
| NotifierError string

definition dquote :: string where
  "dquote = [CHR 0x22]"

fun message :: "error \<Rightarrow> string" where
  "message (ResolutionError teamName) =
     ''Could not resolve team id for '' @ dquote @ teamName @ dquote
       @ ''. Try entering a gamePk or enable Simulation Mode.''"
| "message NoEventFoundError = ''No game found for team near the given date''"
| "message (ProviderError _ m) = m"
| "message (NotifierError m) = m"

subsection \<open>Identifier resolver\<close>

record afl_team =
  team_id :: int
  name :: string
  teamName :: "string option"

text \<open>
  \<open>getTeamIdByName\<close>; the first argument is what \<open>fetchTeamsAFL\<close> returned or threw.
\<close>

definition getTeamIdByName ::
    "(string \<Rightarrow> string) \<Rightarrow> error + afl_team list \<Rightarrow> string \<Rightarrow> error + int" where
  "getTeamIdByName toLowerCase fetched_teams tn =
     (case fetched_teams of Inl e \<Rightarrow> Inl e
      | Inr teams \<Rightarrow>
        (case find (\<lambda>t. toLowerCase (name t) = toLowerCase tn) teams of
           Some hit \<Rightarrow> Inr (team_id hit)
         | None \<Rightarrow>
        (case find (\<lambda>t. toLowerCase (or_empty (teamName t)) = toLowerCase tn) teams of
           Some hit \<Rightarrow> Inr (team_id hit)
         | None \<Rightarrow>
        (case find (\<lambda>t. str_includes (toLowerCase (name t)) (toLowerCase tn)) teams of
           Some hit \<Rightarrow> Inr (team_id hit)
         | None \<Rightarrow> Inl (ResolutionError tn)))))"

text \<open>
  Dates. A calendar day \<open>YYYY-MM-DD\<close> is its number of days since 1970-01-01; a
  \<open>Date\<close> object is its number of milliseconds since the epoch. The process has a
  fixed \<open>getTimezoneOffset()\<close> of \<open>tz\<close> minutes (positive west of Greenwich);
  changes of the offset during the year are not modelled.
\<close>

definition msPerDay :: int where
  "msPerDay = 86400000"

text \<open>\<open>new Date('YYYY-MM-DD')\<close>: a date-only string is midnight UTC of that day.\<close>

definition newDate :: "int \<Rightarrow> int" where
  "newDate day = day * msPerDay"

text \<open>
  \<open>d.setDate(d.getDate() + i)\<close>: the local calendar day moves by \<open>i\<close>, the local time
  of day stays.
\<close>

definition shiftDate :: "int \<Rightarrow> int \<Rightarrow> int" where
  "shiftDate d i = d + i * msPerDay"

text \<open>
  \<open>ymd(d)\<close>: the local calendar day of \<open>d\<close>, that is, the UTC day of
  \<open>d.getTime() - d.getTimezoneOffset() * 60000\<close>.
\<close>

definition ymd :: "int \<Rightarrow> int \<Rightarrow> int" where
  "ymd tz d = (d - tz * 60000) div msPerDay"

record game =
  gamePk :: int
  gameState :: "string option"

record scheduled =
  sGamePk :: int
  sStatus :: string
  sDate :: int

text \<open>
  \<open>getScheduleForDate\<close>; \<open>sched teamId day\<close> is \<open>data.dates?.[0]?.games?.[0]\<close> of
  the provider's answer for that team and day.
\<close>

definition getScheduleForDate ::
    "(int \<Rightarrow> int \<Rightarrow> game option) \<Rightarrow> int \<Rightarrow> int \<Rightarrow> scheduled option" where
  "getScheduleForDate sched teamId day =
     (case sched teamId day of None \<Rightarrow> None
      | Some g \<Rightarrow> Some \<lparr>sGamePk = gamePk g,
          sStatus = (if truthy_str (gameState g) then or_empty (gameState g) else ''Scheduled''),
          sDate = day\<rparr>)"

text \<open>\<open>n.toString()\<close> for an integer: the decimal digits, after the sign.\<close>

function show_digits :: "int \<Rightarrow> string" where
  "show_digits k =
     (if k < 10 then [char_of (48 + k)] else show_digits (k div 10) @ [char_of (48 + k mod 10)])"
  by pat_completeness auto
termination
  by (relation "measure nat") auto

definition show_int :: "int \<Rightarrow> string" where
  "show_int k = (if k < 0 then CHR ''-'' # show_digits (- k) else show_digits k)"

text \<open>
  One of the two \<open>for (let i = 1; i <= 3; i++)\<close> loops of \<open>resolveGamePkIfNeeded\<close>:
  \<open>dir\<close> is \<open>-1\<close> for the loop into the past and \<open>1\<close> for the loop into the future,
  the list holds the values of \<open>i\<close> still to run. \<open>x?.gamePk\<close> is truthy when there
  is a game and its number is not zero. The second component of the result lists the
  days the schedule was asked for, in the order of the requests.
\<close>

fun scan_days ::
    "int \<Rightarrow> (int \<Rightarrow> int \<Rightarrow> game option) \<Rightarrow> int \<Rightarrow> int \<Rightarrow> int \<Rightarrow> int list
      \<Rightarrow> scheduled option \<times> int list" where
  "scan_days tz sched teamId date dir [] = (None, [])"
| "scan_days tz sched teamId date dir (i # rest) =
     (let d = shiftDate (newDate date) (dir * i); day = ymd tz d in
      case getScheduleForDate sched teamId day of
        None \<Rightarrow> (let (r, q) = scan_days tz sched teamId date dir rest in (r, day # q))
      | Some found \<Rightarrow>
          if sGamePk found \<noteq> 0 then (Some found, [day])
          else (let (r, q) = scan_days tz sched teamId date dir rest in (r, day # q)))"

text \<open>
  \<open>resolveGamePkIfNeeded(team, date, gamePk, simulate)\<close>, for a date that is given.
  The result comes with the days the schedule was asked for.
\<close>

definition resolveGamePkIfNeeded ::
    "(string \<Rightarrow> string) \<Rightarrow> int \<Rightarrow> error + afl_team list \<Rightarrow> (int \<Rightarrow> int \<Rightarrow> game option)
      \<Rightarrow> string \<Rightarrow> int \<Rightarrow> string option \<Rightarrow> bool \<Rightarrow> (error + string) \<times> int list" where
  "resolveGamePkIfNeeded toLowerCase tz fetched_teams sched team date pk simulate =
     (if simulate then (Inr ''(simulation)'', [])
      else if truthy_str pk then (Inr (or_empty pk), [])
      else case getTeamIdByName toLowerCase fetched_teams team of Inl e \<Rightarrow> (Inl e, [])
      | Inr teamId \<Rightarrow>
        (case (case getScheduleForDate sched teamId date of None \<Rightarrow> None
                | Some exact \<Rightarrow> if sGamePk exact \<noteq> 0 then Some exact else None) of
           Some exact \<Rightarrow> (Inr (show_int (sGamePk exact)), [date])
         | None \<Rightarrow>
        (case scan_days tz sched teamId date (- 1) [1, 2, 3] of
           (Some back, q1) \<Rightarrow> (Inr (show_int (sGamePk back)), date # q1)
         | (None, q1) \<Rightarrow>
        (case scan_days tz sched teamId date 1 [1, 2, 3] of
           (Some fwd, q2) \<Rightarrow> (Inr (show_int (sGamePk fwd)), date # q1 @ q2)
         | (None, q2) \<Rightarrow> (Inl NoEventFoundError, date # q1 @ q2)))))"

subsection \<open>The status of a player\<close>

record status =
  inGame :: bool
  side :: "string option"
  statusBattingOrder :: "string option"
  statusPosition :: "string option"
  rawGameState :: string

text \<open>The parameters of a watcher, as \<open>startAdaptiveWatcher\<close> receives them.\<close>

record params =
  team :: string
  playerName :: string
  date :: int
  watchedGamePk :: string
  simulate :: bool
  emailTo :: "string option"
  cooldownSec :: "int option"
  stopAfterAlert :: "bool option"

text \<open>\<open>data?.gameData?.status?.detailedState || 'Unknown'\<close>.\<close>

definition state_of :: "feed \<Rightarrow> string" where
  "state_of data =
     (if truthy_str (detailedState data) then or_empty (detailedState data) else ''Unknown'')"

text \<open>
  \<open>getStatusOnce\<close>; the second argument is what \<open>fetchLiveFeed(gamePk)\<close> returns or
  throws, and is not looked at in simulation.
\<close>

definition getStatusOnce ::
    "(string \<Rightarrow> string) \<Rightarrow> params \<Rightarrow> error + feed \<Rightarrow> error + status" where
  "getStatusOnce toLowerCase prm fetched =
     (if simulate prm then
        Inr \<lparr>inGame = True, side = Some ''home'', statusBattingOrder = Some ''501'',
             statusPosition = Some ''2B'', rawGameState = ''In Progress (Simulated)''\<rparr>
      else case fetched of Inl e \<Rightarrow> Inl e
      | Inr data \<Rightarrow>
        (let (sd, match) =
               (case boxHome data of None \<Rightarrow> (None, None)
                | Some home \<Rightarrow>
                  (case boxAway data of None \<Rightarrow> (None, None)
                   | Some away \<Rightarrow>
                     (let h = findByName toLowerCase (playerName prm) home;
                          a = findByName toLowerCase (playerName prm) away
                      in (if h \<noteq> None then Some ''home''
                          else if a \<noteq> None then Some ''away'' else None,
                          if h \<noteq> None then h else a))))
         in Inr \<lparr>inGame = entered toLowerCase match (allPlays data) (playerName prm),
                 side = sd,
                 statusBattingOrder = (case match of None \<Rightarrow> None
                                       | Some m \<Rightarrow> or_null (battingOrder m)),
                 statusPosition = (case match of None \<Rightarrow> None
                                   | Some m \<Rightarrow> or_null (positionAbbreviation m)),
                 rawGameState = state_of data\<rparr>))"

subsection \<open>The one-shot status query\<close>

record query =
  q_gamePk :: "string option"
  q_playerName :: "string option"
  q_team :: "string option"
  q_simulate :: "string option"

text \<open>A JSON answer: the HTTP status and the properties of the body that are set.\<close>

record reply =
  httpStatus :: int
  r_error :: "string option"
  r_code :: "string option"
  r_player :: "string option"
  r_inGame :: "bool option"
  r_side :: "string option"
  r_battingOrder :: "string option"
  r_position :: "string option"
  r_rawGameState :: "string option"
  r_reason :: "string option"
  r_simulated :: "bool option"
  r_gameTeams :: "(string \<times> string) option"

definition empty_reply :: "int \<Rightarrow> reply" where
  "empty_reply st = \<lparr>httpStatus = st, r_error = None, r_code = None, r_player = None,
     r_inGame = None, r_side = None, r_battingOrder = None, r_position = None,
     r_rawGameState = None, r_reason = None, r_simulated = None, r_gameTeams = None\<rparr>"

text \<open>
  The \<open>catch\<close> of the handler: the status of the provider's response or 500, and the
  message or \<open>'Unknown error'\<close>.
\<close>

definition error_reply :: "error \<Rightarrow> reply" where
  "error_reply e =
     (empty_reply (case e of ProviderError (Some st) _ \<Rightarrow> (if st \<noteq> 0 then st else 500) | _ \<Rightarrow> 500))
       \<lparr>r_error := Some (if message e \<noteq> [] then message e else ''Unknown error'')\<rparr>"

text \<open>
  \<open>GET /api/playerStatus\<close>; the second argument is what \<open>fetchLiveFeed(gamePk)\<close>
  returns or throws, and is looked at only once the parameters are accepted.
\<close>

definition playerStatus ::
    "(string \<Rightarrow> string) \<Rightarrow> query \<Rightarrow> error + feed \<Rightarrow> reply" where
  "playerStatus toLowerCase q fetched =
     (if q_simulate q = Some ''1'' then
        (empty_reply 200)
          \<lparr>r_player := Some (if truthy_str (q_playerName q) then or_empty (q_playerName q)
                               else ''Sample Player''),
           r_inGame := Some True, r_side := Some ''home'', r_battingOrder := Some ''501'',
           r_position := Some ''2B'', r_rawGameState := Some ''In Progress (Simulated)'',
           r_simulated := Some True\<rparr>
      else if \<not> truthy_str (q_gamePk q) \<or> \<not> truthy_str (q_playerName q) then
        (empty_reply 400)
          \<lparr>r_error := Some ''gamePk and playerName are required (or use simulate=1)''\<rparr>
      else case fetched of Inl e \<Rightarrow> error_reply e
      | Inr data \<Rightarrow>
        (let pn = or_empty (q_playerName q);
             st = state_of data;
             homeTeamName = or_empty (homeName data);
             awayTeamName = or_empty (awayName data)
         in
         if truthy_str (q_team q)
            \<and> \<not> (str_includes (toLowerCase homeTeamName) (toLowerCase (or_empty (q_team q)))
                  \<or> str_includes (toLowerCase awayTeamName) (toLowerCase (or_empty (q_team q))))
         then
           (empty_reply 409)
             \<lparr>r_error := Some (''Team mismatch: '' @ dquote @ or_empty (q_team q) @ dquote
                                 @ '' not found in this game.''),
              r_code := Some ''TEAM_MISMATCH'',
              r_gameTeams := Some (homeTeamName, awayTeamName)\<rparr>
         else
           (case boxHome data of
              None \<Rightarrow> (empty_reply 200)
                \<lparr>r_player := Some pn, r_inGame := Some False, r_rawGameState := Some st,
                 r_reason := Some ''Boxscore not available yet''\<rparr>
            | Some home \<Rightarrow>
           (case boxAway data of
              None \<Rightarrow> (empty_reply 200)
                \<lparr>r_player := Some pn, r_inGame := Some False, r_rawGameState := Some st,
                 r_reason := Some ''Boxscore not available yet''\<rparr>
            | Some away \<Rightarrow>
              (let homeMatch = findByName toLowerCase pn home;
                   awayMatch = findByName toLowerCase pn away in
               if homeMatch = None \<and> awayMatch = None then
                 (empty_reply 404)
                   \<lparr>r_error := Some (''Player '' @ dquote @ pn @ dquote
                        @ '' not listed on either roster for gamePk '' @ or_empty (q_gamePk q)
                        @ ''.''),
                    r_code := Some ''PLAYER_NOT_IN_GAME'',
                    r_rawGameState := Some st,
                    r_gameTeams := Some (homeTeamName, awayTeamName)\<rparr>
               else
                 (let whichSide = (if homeMatch \<noteq> None then ''home'' else ''away'');
                      match = (if homeMatch \<noteq> None then homeMatch else awayMatch)
                  in (empty_reply 200)
                    \<lparr>r_player := Some pn,
                     r_inGame := Some (entered toLowerCase match (allPlays data) pn),
                     r_side := Some whichSide,
                     r_battingOrder := (case match of None \<Rightarrow> None
                                         | Some m \<Rightarrow> or_null (battingOrder m)),
                     r_position := (case match of None \<Rightarrow> None
                                     | Some m \<Rightarrow> or_null (positionAbbreviation m)),
                     r_rawGameState := Some st\<rparr>))))))"

subsection \<open>The adaptive watcher\<close>

definition POLL_FAST :: int where
  "POLL_FAST = 5000"

definition POLL_SLOW :: int where
  "POLL_SLOW = 30000"

definition POLL_FINAL :: int where
  "POLL_FINAL = 60000"

text \<open>
  The \<open>state\<close> object of a watcher. \<open>timer\<close> is the delay of the timeout that is
  armed, \<open>None\<close> when none is (never set, or cleared).
\<close>

record wstate =
  wid :: nat
  wparams :: params
  lastInGame :: bool
  lastAlertAt :: int
  stopped :: bool
  timer :: "int option"

text \<open>
  The process: the \<open>state\<close> objects by watcher id (an object lives on in the closure of
  its loop after it has left the registry), the keys of the \<open>watchers\<close> map in insertion
  order, and \<open>nextWatchId\<close>.
\<close>

record sys =
  heap :: "nat \<Rightarrow> wstate option"
  watchers :: "nat list"
  nextWatchId :: nat

definition init_sys :: sys where
  "init_sys = \<lparr>heap = (\<lambda>_. None), watchers = [], nextWatchId = 1\<rparr>"

text \<open>Assignment to the fields of the state object of watcher \<open>i\<close>.\<close>

definition modify ::
    "nat \<Rightarrow> (wstate \<Rightarrow> wstate) \<Rightarrow> sys \<Rightarrow> sys" where
  "modify i f s = s\<lparr>heap := (heap s)(i := map_option f (heap s i))\<rparr>"

text \<open>The destructuring defaults \<open>cooldownSec = 300\<close> and \<open>stopAfterAlert = true\<close>.\<close>

definition cooldown :: "params \<Rightarrow> int" where
  "cooldown prm = (case cooldownSec prm of None \<Rightarrow> 300 | Some c \<Rightarrow> c)"

definition autoStop :: "params \<Rightarrow> bool" where
  "autoStop prm = (case stopAfterAlert prm of None \<Rightarrow> True | Some b \<Rightarrow> b)"

text \<open>\<open>x || '-'\<close>.\<close>

definition or_dash :: "string option \<Rightarrow> string" where
  "or_dash x = (if truthy_str x then or_empty x else ''-'')"

definition newline :: string where
  "newline = [CHR 0x0A]"

text \<open>
  \<open>formatAlertText\<close>; \<open>now\<close> is \<open>new Date().toLocaleString()\<close>. The result is the
  subject and the HTML body.
\<close>

definition formatAlertText ::
    "params \<Rightarrow> string \<Rightarrow> status \<Rightarrow> string \<times> string" where
  "formatAlertText prm now st =
     (let hdr = ''ALERT: '' @ playerName prm @ '' just entered the game'';
          body = ''Team: '' @ team prm @ newline
               @ ''GamePk: '' @ watchedGamePk prm @ newline
               @ ''When: '' @ now @ newline
               @ ''Side: '' @ or_dash (side st) @ newline
               @ ''Batting Order: '' @ or_dash (statusBattingOrder st) @ newline
               @ ''Position: '' @ or_dash (statusPosition st) @ newline
               @ ''State: '' @ (if rawGameState st \<noteq> [] then rawGameState st else ''-'')
      in (hdr, ''<h2>'' @ hdr @ ''</h2><pre>'' @ body @ ''</pre>''))"

text \<open>
  What one run of \<open>loop\<close> meets: the answer of \<open>fetchLiveFeed\<close>, the value of
  \<open>Date.now()\<close>, the text of \<open>new Date().toLocaleString()\<close>, and the exception
  \<open>sendEmail\<close> throws if it is called (\<open>None\<close> when the mail goes out).
\<close>

record poll =
  fetched :: "error + feed"
  clock :: int
  localTime :: string
  sendFails :: "error option"

text \<open>
  What one run of \<open>loop\<close> does to the outside: whether the branch that alerts was taken,
  the calls of \<open>sendEmail\<close> (recipient, subject, body), and the lines of
  \<open>console.error\<close>.
\<close>

record effects =
  alerted :: bool
  emails :: "(string \<times> string \<times> string) list"
  logs :: "string list"

definition no_effects :: effects where
  "no_effects = \<lparr>alerted = False, emails = [], logs = []\<rparr>"

definition scheduleNext :: "nat \<Rightarrow> int \<Rightarrow> sys \<Rightarrow> sys" where
  "scheduleNext i ms s =
     (case heap s i of None \<Rightarrow> s
      | Some st \<Rightarrow> if stopped st then s else modify i (\<lambda>st. st\<lparr>timer := Some ms\<rparr>) s)"

text \<open>\<open>stopWatcher\<close>: the result \<open>ok\<close> and the new process state.\<close>

definition stopWatcher :: "nat \<Rightarrow> sys \<Rightarrow> bool \<times> sys" where
  "stopWatcher i s =
     (if i \<notin> set (watchers s) then (False, s)
      else (True, (modify i (\<lambda>st. st\<lparr>stopped := True, timer := None\<rparr>) s)
                    \<lparr>watchers := removeAll i (watchers s)\<rparr>))"

text \<open>The choice of the next delay from the state label of the game.\<close>

definition interval_of ::
    "(string \<Rightarrow> string) \<Rightarrow> status \<Rightarrow> int" where
  "interval_of toLowerCase s =
     (let st = toLowerCase (rawGameState s) in
      if str_includes st ''progress'' then POLL_FAST
      else if str_includes st ''final'' then POLL_FINAL
      else POLL_SLOW)"

text \<open>One run of \<open>loop\<close> for the watcher \<open>i\<close>.\<close>

definition loop ::
    "(string \<Rightarrow> string) \<Rightarrow> nat \<Rightarrow> poll \<Rightarrow> sys \<Rightarrow> sys \<times> effects" where
  "loop toLowerCase i p s =
     (case heap s i of None \<Rightarrow> (s, no_effects)
      | Some state \<Rightarrow>
        (let prm = wparams state in
         case getStatusOnce toLowerCase prm (fetched p) of
           Inl e \<Rightarrow>
             (scheduleNext i POLL_SLOW s,
              no_effects\<lparr>logs := [''Watcher error: '' @ message e]\<rparr>)
         | Inr st \<Rightarrow>
             (let interval = interval_of toLowerCase st in
              if \<not> lastInGame state \<and> inGame st then
                (let now = clock p in
                 if now - lastAlertAt state \<ge> cooldown prm * 1000 then
                   (let (subject, html) = formatAlertText prm (localTime p) st;
                        sent = (if truthy_str (emailTo prm)
                                then [(or_empty (emailTo prm), subject, html)] else []);
                        logged = (case sendFails p of None \<Rightarrow> []
                                  | Some e \<Rightarrow> if truthy_str (emailTo prm)
                                              then [''Email error: '' @ message e] else []);
                        eff = \<lparr>alerted = True, emails = sent, logs = logged\<rparr>;
                        s1 = modify i (\<lambda>st. st\<lparr>lastAlertAt := now\<rparr>) s
                    in if autoStop prm then (snd (stopWatcher i s1), eff)
                       else (scheduleNext i interval
                               (modify i (\<lambda>w. w\<lparr>lastInGame := inGame st\<rparr>) s1), eff))
                 else (scheduleNext i interval
                         (modify i (\<lambda>w. w\<lparr>lastInGame := inGame st\<rparr>) s), no_effects))
              else (scheduleNext i interval
                      (modify i (\<lambda>w. w\<lparr>lastInGame := inGame st\<rparr>) s), no_effects))))"

text \<open>
  \<open>startAdaptiveWatcher\<close>. The first run of \<open>loop\<close> is started at once, but it waits
  for \<open>getStatusOnce\<close> before it touches the state, so the watcher is in the registry by
  then: the first run is a \<open>loop\<close> step after this one.
\<close>

definition startAdaptiveWatcher :: "params \<Rightarrow> sys \<Rightarrow> nat \<times> sys" where
  "startAdaptiveWatcher prm s =
     (let i = nextWatchId s;
          state = \<lparr>wid = i, wparams = prm, lastInGame = False, lastAlertAt = 0,
                   stopped = False, timer = None\<rparr>
      in (i, \<lparr>heap = (heap s)(i \<mapsto> state), watchers = watchers s @ [i],
               nextWatchId = i + 1\<rparr>))"

text \<open>
  The runs of \<open>loop\<close> of one watcher over the polls that come: the first run is the
  direct call, each later one is the timeout armed by the run before, so the runs end when
  no timeout is armed.
\<close>

definition armed :: "nat \<Rightarrow> sys \<Rightarrow> bool" where
  "armed i s = (case heap s i of None \<Rightarrow> False | Some st \<Rightarrow> timer st \<noteq> None)"

fun run ::
    "(string \<Rightarrow> string) \<Rightarrow> nat \<Rightarrow> poll list \<Rightarrow> sys \<Rightarrow> sys \<times> effects list" where
  "run toLowerCase i [] s = (s, [])"
| "run toLowerCase i (p # ps) s =
     (let (s1, e) = loop toLowerCase i p s in
      if armed i s1 then (let (s2, es) = run toLowerCase i ps s1 in (s2, e # es))
      else (s1, [e]))"

text \<open>\<open>GET /api/watch\<close>: the summaries of the registered watchers.\<close>

record summary =
  sum_id :: nat
  sum_playerName :: string
  sum_team :: string
  sum_gamePk :: string
  sum_simulate :: bool
  sum_lastInGame :: bool
  sum_lastAlertAt :: int

definition summarise :: "wstate \<Rightarrow> summary" where
  "summarise w = \<lparr>sum_id = wid w, sum_playerName = playerName (wparams w),
     sum_team = team (wparams w), sum_gamePk = watchedGamePk (wparams w),
     sum_simulate = simulate (wparams w), sum_lastInGame = lastInGame w,
     sum_lastAlertAt = lastAlertAt w\<rparr>"

definition list_watchers :: "sys \<Rightarrow> summary list" where
  "list_watchers s = List.map_filter (\<lambda>i. map_option summarise (heap s i)) (watchers s)"

subsection \<open>Notions of the specification\<close>

text \<open>A counter that is zero or absent.\<close>

definition zero_or_absent :: "int option \<Rightarrow> bool" where
  "zero_or_absent x \<longleftrightarrow> x = None \<or> x = Some 0"

text \<open>
  A play description mentions a name: it contains it, once both are through
  \<open>toLowerCase\<close>.
\<close>

definition mentions ::
    "(string \<Rightarrow> string) \<Rightarrow> play \<Rightarrow> string \<Rightarrow> bool" where
  "mentions toLowerCase p nm \<longleftrightarrow>
     str_includes (toLowerCase (or_empty (description p))) (toLowerCase nm)"

text \<open>
  The three ways a team can match a name, in the order of their priority; every
  comparison is between the results of \<open>toLowerCase\<close>.
\<close>

definition full_name_match ::
    "(string \<Rightarrow> string) \<Rightarrow> string \<Rightarrow> afl_team \<Rightarrow> bool" where
  "full_name_match toLowerCase tn t \<longleftrightarrow> toLowerCase (name t) = toLowerCase tn"

definition short_name_match ::
    "(string \<Rightarrow> string) \<Rightarrow> string \<Rightarrow> afl_team \<Rightarrow> bool" where
  "short_name_match toLowerCase tn t \<longleftrightarrow>
     toLowerCase (or_empty (teamName t)) = toLowerCase tn"

definition substring_match ::
    "(string \<Rightarrow> string) \<Rightarrow> string \<Rightarrow> afl_team \<Rightarrow> bool" where
  "substring_match toLowerCase tn t \<longleftrightarrow>
     str_includes (toLowerCase (name t)) (toLowerCase tn)"

text \<open>A poll of a watcher succeeds, and it finds the player active.\<close>

definition succeeded ::
    "(string \<Rightarrow> string) \<Rightarrow> params \<Rightarrow> poll \<Rightarrow> bool" where
  "succeeded toLowerCase prm p =
     (case getStatusOnce toLowerCase prm (fetched p) of Inl _ \<Rightarrow> False | Inr _ \<Rightarrow> True)"

definition active ::
    "(string \<Rightarrow> string) \<Rightarrow> params \<Rightarrow> poll \<Rightarrow> bool" where
  "active toLowerCase prm p =
     (case getStatusOnce toLowerCase prm (fetched p) of Inl _ \<Rightarrow> False | Inr st \<Rightarrow> inGame st)"

text \<open>The clock values of the polls of a run on which an alert fired.\<close>

definition alert_times :: "poll list \<Rightarrow> effects list \<Rightarrow> int list" where
  "alert_times ps es = map (\<lambda>(p, e). clock p) (filter (\<lambda>(p, e). alerted e) (zip ps es))"

text \<open>A watcher that is registered and running.\<close>

definition live :: "nat \<Rightarrow> sys \<Rightarrow> bool" where
  "live i s = (case heap s i of None \<Rightarrow> False
     | Some st \<Rightarrow> \<not> stopped st \<and> i \<in> set (watchers s))"

text \<open>
  The alert trigger condition on a poll that found the status \<open>st\<close> at clock value
  \<open>now\<close>: a rising edge, and the cooldown elapsed since the last alert.
\<close>

definition trigger :: "wstate \<Rightarrow> status \<Rightarrow> int \<Rightarrow> bool" where
  "trigger w st now \<longleftrightarrow>
     \<not> lastInGame w \<and> inGame st \<and> cooldown (wparams w) * 1000 \<le> now - lastAlertAt w"

text \<open>Every registered state object carries the id it is registered under.\<close>

definition ids_ok :: "sys \<Rightarrow> bool" where
  "ids_ok s \<longleftrightarrow>
     (\<forall>j \<in> set (watchers s). case heap s j of None \<Rightarrow> True | Some w \<Rightarrow> wid w = j)"

text \<open>
  The days of the fallback search in the order the specification gives, and whether
  the schedule has an event for a team on a day.
\<close>

definition window :: "int \<Rightarrow> int list" where
  "window d = [d, d - 1, d - 2, d - 3, d + 1, d + 2, d + 3]"

definition has_event ::
    "(int \<Rightarrow> int \<Rightarrow> game option) \<Rightarrow> int \<Rightarrow> int \<Rightarrow> bool" where
  "has_event sched teamId day =
     (case sched teamId day of None \<Rightarrow> False | Some g \<Rightarrow> gamePk g \<noteq> 0)"

text \<open>
  A roster entry without any sign of participation: no lineup-position marker, every
  counter zero or absent, no innings pitched.
\<close>

definition idle_entry :: "player \<Rightarrow> bool" where
  "idle_entry m \<longleftrightarrow>
     \<not> truthy_str (battingOrder m)
     \<and> zero_or_absent (atBats (bat_of m)) \<and> zero_or_absent (plateAppearances (bat_of m))
     \<and> zero_or_absent (hits (bat_of m)) \<and> zero_or_absent (runs (bat_of m))
     \<and> zero_or_absent (rbi (bat_of m))
     \<and> zero_or_absent (putOuts (fld_of m)) \<and> zero_or_absent (assists (fld_of m))
     \<and> zero_or_absent (chances (fld_of m))
     \<and> zero_or_absent (battersFaced (pit_of m)) \<and> zero_or_absent (pitchesThrown (pit_of m))
     \<and> (inningsPitched (pit_of m) = None \<or> inningsPitched (pit_of m) = Some ''0.0'')"

subsection \<open>Example data\<close>

text \<open>
  The strings of the examples have ASCII characters only. On such a string
  \<open>toLowerCase\<close> replaces the letters A to Z by a to z and leaves the rest; this is
  the function the examples are run with.
\<close>

definition ascii_lower_char :: "char \<Rightarrow> char" where
  "ascii_lower_char c =
     (let n = (of_char c :: nat) in if 65 \<le> n \<and> n \<le> 90 then char_of (n + 32) else c)"

definition ascii_lower :: "string \<Rightarrow> string" where
  "ascii_lower s = map ascii_lower_char s"

text \<open>A starter before the first pitch: a place in the batting order, no statistics.\<close>

definition ex_starter :: player where
  "ex_starter = \<lparr>fullName = Some ''Cade Doughty'', battingOrder = Some ''501'',
     positionAbbreviation = Some ''2B'', playerStats = None\<rparr>"

text \<open>An entry whose batting order is the empty string.\<close>

definition ex_blank :: player where
  "ex_blank = \<lparr>fullName = Some ''Cade Doughty'', battingOrder = Some [],
     positionAbbreviation = None, playerStats = None\<rparr>"

text \<open>A player on the bench: all counters zero.\<close>

definition ex_bench :: player where
  "ex_bench = \<lparr>fullName = Some ''Cade Doughty'', battingOrder = None,
     positionAbbreviation = Some ''2B'',
     playerStats = Some \<lparr>
       statsBatting = Some \<lparr>atBats = Some 0, plateAppearances = Some 0, hits = Some 0,
         runs = Some 0, rbi = Some 0\<rparr>,
       statsFielding = Some \<lparr>putOuts = Some 0, assists = Some 0, chances = None\<rparr>,
       statsPitching = Some \<lparr>battersFaced = None, pitchesThrown = Some 0,
         inningsPitched = Some ''0.0''\<rparr>\<rparr>\<rparr>"

definition ex_other_play :: play where
  "ex_other_play = \<lparr>description = Some ''Defensive Substitution: John Smith replaces Al Jones.''\<rparr>"

definition ex_entry_play :: play where
  "ex_entry_play = \<lparr>description = Some ''Offensive Substitution: Pinch-hitter Cade Doughty replaces Al Jones.''\<rparr>"

text \<open>Four teams; the name \<open>mesa\<close> fits three of them in three different ways.\<close>

definition ex_teams :: "afl_team list" where
  "ex_teams =
     [\<lparr>team_id = 1, name = ''Mesa Solar Sox'', teamName = Some ''Solar Sox''\<rparr>,
      \<lparr>team_id = 2, name = ''Glendale Desert Dogs'', teamName = Some ''Desert Dogs''\<rparr>,
      \<lparr>team_id = 3, name = ''Salt River Rafters'', teamName = Some ''Mesa''\<rparr>,
      \<lparr>team_id = 4, name = ''Mesa'', teamName = None\<rparr>]"

text \<open>
  A schedule with a single game, of team 2 on day 20375 (2025-10-14), and one with two
  games of team 2, on the days 20374 and 20377.
\<close>

definition ex_sched :: "int \<Rightarrow> int \<Rightarrow> game option" where
  "ex_sched teamId day =
     (if teamId = 2 \<and> day = 20375 then Some \<lparr>gamePk = 813042, gameState = Some ''Final''\<rparr>
      else None)"

definition ex_sched2 :: "int \<Rightarrow> int \<Rightarrow> game option" where
  "ex_sched2 teamId day =
     (if teamId = 2 \<and> day = 20374 then Some \<lparr>gamePk = 813040, gameState = Some ''Final''\<rparr>
      else if teamId = 2 \<and> day = 20377 then Some \<lparr>gamePk = 813050, gameState = None\<rparr>
      else None)"

text \<open>Feeds of a game in progress; they differ in the home roster and in the plays.\<close>

definition ex_other_player :: player where
  "ex_other_player = \<lparr>fullName = Some ''John Smith'', battingOrder = Some ''100'',
     positionAbbreviation = Some ''SS'', playerStats = None\<rparr>"

definition ex_feed :: "player list \<Rightarrow> play list \<Rightarrow> feed" where
  "ex_feed home_players plays =
     \<lparr>detailedState = Some ''In Progress'', homeName = Some ''Glendale Desert Dogs'',
      awayName = Some ''Mesa Solar Sox'', boxHome = Some \<lparr>players = home_players\<rparr>,
      boxAway = Some \<lparr>players = [ex_other_player]\<rparr>, allPlays = Some plays\<rparr>"

definition ex_feed_in :: feed where
  "ex_feed_in = ex_feed [ex_starter] [ex_other_play]"

definition ex_feed_bench :: feed where
  "ex_feed_bench = ex_feed [ex_bench] [ex_other_play]"

definition ex_feed_unlisted :: feed where
  "ex_feed_unlisted = ex_feed [] [ex_other_play]"

definition ex_feed_announced :: feed where
  "ex_feed_announced = ex_feed [] [ex_other_play, ex_entry_play]"

text \<open>Queries for Cade Doughty in game 813042, with a team filter.\<close>

definition ex_query :: "string \<Rightarrow> query" where
  "ex_query tm = \<lparr>q_gamePk = Some ''813042'', q_playerName = Some ''Cade Doughty'',
     q_team = Some tm, q_simulate = None\<rparr>"

text \<open>
  A watcher for Cade Doughty that keeps running after an alert, with the default
  cooldown; the same with a cooldown of 2000000000 seconds; the same stopping after
  its first alert.
\<close>

definition ex_params :: params where
  "ex_params = \<lparr>team = ''Glendale Desert Dogs'', playerName = ''Cade Doughty'', date = 20376,
     watchedGamePk = ''813042'', simulate = False, emailTo = Some ''fan@example.com'',
     cooldownSec = None, stopAfterAlert = Some False\<rparr>"

definition ex_params_patient :: params where
  "ex_params_patient = ex_params\<lparr>cooldownSec := Some 2000000000\<rparr>"

definition ex_params_once :: params where
  "ex_params_once = ex_params\<lparr>stopAfterAlert := None\<rparr>"

text \<open>A poll at a clock value, \<open>ms\<close> milliseconds after 2025-11-01T12:26:40Z.\<close>

definition ex_poll :: "error + feed \<Rightarrow> int \<Rightarrow> poll" where
  "ex_poll f ms = \<lparr>fetched = f, clock = 1762000000000 + ms,
     localTime = ''11/1/2025, 5:26:40 AM'', sendFails = None\<rparr>"

text \<open>
  Five polls: the player is in the game, on the bench after 30 seconds, in the game
  after 60, on the bench after 90, and in the game after 400 seconds.
\<close>

definition ex_polls :: "poll list" where
  "ex_polls = [ex_poll (Inr ex_feed_in) 0, ex_poll (Inr ex_feed_bench) 30000,
     ex_poll (Inr ex_feed_in) 60000, ex_poll (Inr ex_feed_bench) 90000,
     ex_poll (Inr ex_feed_in) 400000]"

text \<open>The process after the first watcher has been started.\<close>

definition ex_sys :: "params \<Rightarrow> sys" where
  "ex_sys prm = snd (startAdaptiveWatcher prm init_sys)"

section \<open>Entry detector: properties\<close>

lemma scan_plays_no_mention:
  "\<forall>p \<in> set ps. \<not> str_includes (lc (or_empty (description p))) needle
     \<Longrightarrow> \<not> scan_plays lc needle ps"
  by (induction ps) simp_all

lemma playerAppearedFromPlays_no_mention:
  "(\<And>ps. plays = Some ps \<Longrightarrow> \<forall>p \<in> set ps. \<not> mentions lc p nm)
     \<Longrightarrow> \<not> playerAppearedFromPlays lc plays nm"
  by (auto simp: playerAppearedFromPlays_def mentions_def
      dest: scan_plays_no_mention split: option.splits)

lemma not_positive_zero_or_absent: "zero_or_absent x \<Longrightarrow> \<not> positive x"
  by (auto simp: zero_or_absent_def)

lemma idle_entry_boxscore: "idle_entry m \<Longrightarrow> \<not> playerAppearedFromBoxscore (Some m)"
  by (auto simp: idle_entry_def battingActivity_def fieldingActivity_def pitchingActivity_def
      dest: not_positive_zero_or_absent)

text \<open>
  Claim C4, as the specification states it, fails: a starter has a place in the batting
  order before the game, so with every counter absent and no play naming the player the
  detector still answers active.
\<close>

theorem starter_without_counters_is_active:
  "zero_or_absent (atBats (bat_of ex_starter))
   \<and> zero_or_absent (plateAppearances (bat_of ex_starter))
   \<and> zero_or_absent (hits (bat_of ex_starter))
   \<and> zero_or_absent (runs (bat_of ex_starter))
   \<and> zero_or_absent (rbi (bat_of ex_starter))
   \<and> zero_or_absent (putOuts (fld_of ex_starter))
   \<and> zero_or_absent (assists (fld_of ex_starter))
   \<and> zero_or_absent (chances (fld_of ex_starter))
   \<and> zero_or_absent (battersFaced (pit_of ex_starter))
   \<and> zero_or_absent (pitchesThrown (pit_of ex_starter))
   \<and> inningsPitched (pit_of ex_starter) = None
   \<and> \<not> mentions ascii_lower ex_other_play ''Cade Doughty''
   \<and> entered ascii_lower (Some ex_starter) (Some [ex_other_play]) ''Cade Doughty''"
  by code_simp

text \<open>
  Claim C4, amended: when the roster entry of the player (if there is one) has no
  lineup-position marker, every participation counter zero or absent and no innings
  pitched, and no play description mentions the player's name, the entry detector
  answers not active.
\<close>

theorem idle_and_unmentioned_not_entered:
  assumes "\<And>m. match = Some m \<Longrightarrow> idle_entry m"
    and "\<And>ps. plays = Some ps \<Longrightarrow> \<forall>p \<in> set ps. \<not> mentions lc p nm"
  shows "\<not> entered lc match plays nm"
proof -
  have "\<not> playerAppearedFromBoxscore match"
  proof (cases match)
    case None
    then show ?thesis by simp
  next
    case (Some m)
    with assms(1) show ?thesis by (blast dest: idle_entry_boxscore)
  qed
  moreover have "\<not> playerAppearedFromPlays lc plays nm"
    using assms(2) by (rule playerAppearedFromPlays_no_mention)
  ultimately show ?thesis
    by (simp add: entered_def)
qed

theorem idle_and_unmentioned_not_entered_witness:
  "idle_entry ex_bench \<and> \<not> mentions ascii_lower ex_other_play ''Cade Doughty''
   \<and> \<not> entered ascii_lower (Some ex_bench) (Some [ex_other_play]) ''Cade Doughty''"
proof -
  have idle: "idle_entry ex_bench"
    by code_simp
  have quiet: "\<not> mentions ascii_lower ex_other_play ''Cade Doughty''"
    by code_simp
  have "\<not> entered ascii_lower (Some ex_bench) (Some [ex_other_play]) ''Cade Doughty''"
    using idle quiet
    by (intro idle_and_unmentioned_not_entered) auto
  with idle quiet show ?thesis
    by simp
qed

text \<open>
  Claim C5, as the specification states it, fails: the code tests the marker for
  truthiness, so a batting order that is present but empty does not count.
\<close>

theorem empty_marker_is_not_active:
  "battingOrder ex_blank \<noteq> None \<and> \<not> playerAppearedFromBoxscore (Some ex_blank)"
  by code_simp

text \<open>
  Claim C5, amended: a roster entry whose lineup-position marker is present and not
  empty is active whatever its counters are; and an entry is active exactly when the
  marker is present and not empty, or one of the counters atBats, plateAppearances, hits,
  runs, rbi, putOuts, assists, chances, battersFaced, pitchesThrown is greater than zero,
  or inningsPitched is present, not empty and not \<open>'0.0'\<close>.
\<close>

theorem playerAppearedFromBoxscore_iff:
  "(truthy_str (battingOrder m) \<longrightarrow> playerAppearedFromBoxscore (Some m))
   \<and> (playerAppearedFromBoxscore (Some m) \<longleftrightarrow>
        truthy_str (battingOrder m)
        \<or> positive (atBats (bat_of m)) \<or> positive (plateAppearances (bat_of m))
        \<or> positive (hits (bat_of m)) \<or> positive (runs (bat_of m)) \<or> positive (rbi (bat_of m))
        \<or> positive (putOuts (fld_of m)) \<or> positive (assists (fld_of m))
        \<or> positive (chances (fld_of m))
        \<or> positive (battersFaced (pit_of m)) \<or> positive (pitchesThrown (pit_of m))
        \<or> (truthy_str (inningsPitched (pit_of m)) \<and> inningsPitched (pit_of m) \<noteq> Some ''0.0''))"
  by (auto simp: battingActivity_def fieldingActivity_def pitchingActivity_def)

theorem playerAppearedFromBoxscore_iff_witness:
  "truthy_str (battingOrder ex_starter) \<and> playerAppearedFromBoxscore (Some ex_starter)"
proof -
  have marker: "truthy_str (battingOrder ex_starter)"
    by (simp add: ex_starter_def)
  with playerAppearedFromBoxscore_iff [of ex_starter] show ?thesis
    by blast
qed

section \<open>Identifier resolver: properties\<close>

lemma find_SomeD: "find P xs = Some x \<Longrightarrow> P x \<and> x \<in> set xs"
  by (auto simp: find_Some_iff)

lemma find_NoneD: "find P xs = None \<Longrightarrow> \<forall>x \<in> set xs. \<not> P x"
  by (simp add: find_None_iff)

text \<open>
  Claim C7: the full name is tried first, then the short name, then the substring of
  the full name, each letter case aside; the first team of the first strategy that
  finds one gives the id, and the resolution fails exactly when no team fits any of the three.
\<close>

theorem getTeamIdByName_priority:
  "(\<forall>t. find (full_name_match lc tn) teams = Some t
        \<longrightarrow> getTeamIdByName lc (Inr teams) tn = Inr (team_id t))
   \<and> (\<forall>t. (\<forall>u \<in> set teams. \<not> full_name_match lc tn u)
          \<and> find (short_name_match lc tn) teams = Some t
        \<longrightarrow> getTeamIdByName lc (Inr teams) tn = Inr (team_id t))
   \<and> (\<forall>t. (\<forall>u \<in> set teams. \<not> full_name_match lc tn u \<and> \<not> short_name_match lc tn u)
          \<and> find (substring_match lc tn) teams = Some t
        \<longrightarrow> getTeamIdByName lc (Inr teams) tn = Inr (team_id t))
   \<and> ((\<forall>u \<in> set teams. \<not> full_name_match lc tn u \<and> \<not> short_name_match lc tn u
                          \<and> \<not> substring_match lc tn u)
        \<longleftrightarrow> getTeamIdByName lc (Inr teams) tn = Inl (ResolutionError tn))"
proof -
  have preds: "(\<lambda>t. lc (name t) = lc tn) = full_name_match lc tn"
    "(\<lambda>t. lc (or_empty (teamName t)) = lc tn) = short_name_match lc tn"
    "(\<lambda>t. str_includes (lc (name t)) (lc tn)) = substring_match lc tn"
    by (simp_all add: full_name_match_def short_name_match_def substring_match_def fun_eq_iff)
  show ?thesis
    unfolding getTeamIdByName_def preds
    by (auto split: option.splits dest!: find_SomeD find_NoneD)
qed

theorem getTeamIdByName_priority_witness:
  "getTeamIdByName ascii_lower (Inr ex_teams) ''mesa'' = Inr 4
   \<and> getTeamIdByName ascii_lower (Inr ex_teams) ''desert dogs'' = Inr 2
   \<and> getTeamIdByName ascii_lower (Inr ex_teams) ''River'' = Inr 3
   \<and> getTeamIdByName ascii_lower (Inr ex_teams) ''Yankees'' = Inl (ResolutionError ''Yankees'')"
proof -
  note prio = getTeamIdByName_priority [where teams = ex_teams]
  have "find (full_name_match ascii_lower ''mesa'') ex_teams = Some (ex_teams ! 3)"
    by code_simp
  from prio [THEN conjunct1, rule_format, OF this]
  have full: "getTeamIdByName ascii_lower (Inr ex_teams) ''mesa'' = Inr 4"
    by (simp add: ex_teams_def)
  have "(\<forall>u \<in> set ex_teams. \<not> full_name_match ascii_lower ''desert dogs'' u)
      \<and> find (short_name_match ascii_lower ''desert dogs'') ex_teams = Some (ex_teams ! 1)"
    by code_simp
  from prio [THEN conjunct2, THEN conjunct1, rule_format, OF this]
  have short: "getTeamIdByName ascii_lower (Inr ex_teams) ''desert dogs'' = Inr 2"
    by (simp add: ex_teams_def)
  have "(\<forall>u \<in> set ex_teams. \<not> full_name_match ascii_lower ''River'' u \<and> \<not> short_name_match ascii_lower ''River'' u)
      \<and> find (substring_match ascii_lower ''River'') ex_teams = Some (ex_teams ! 2)"
    by code_simp
  from prio [THEN conjunct2, THEN conjunct2, THEN conjunct1, rule_format, OF this]
  have sub: "getTeamIdByName ascii_lower (Inr ex_teams) ''River'' = Inr 3"
    by (simp add: ex_teams_def)
  have "\<forall>u \<in> set ex_teams. \<not> full_name_match ascii_lower ''Yankees'' u
      \<and> \<not> short_name_match ascii_lower ''Yankees'' u \<and> \<not> substring_match ascii_lower ''Yankees'' u"
    by code_simp
  from prio [THEN conjunct2, THEN conjunct2, THEN conjunct2, THEN iffD1, OF this]
  have none: "getTeamIdByName ascii_lower (Inr ex_teams) ''Yankees'' = Inl (ResolutionError ''Yankees'')" .
  from full short sub none show ?thesis
    by (intro conjI)
qed

lemma ymd_shift: "ymd tz (shiftDate (newDate d) k) = d + k + (- (tz * 60000)) div msPerDay"
proof -
  have "d * msPerDay + k * msPerDay - tz * 60000 = (- (tz * 60000)) + (d + k) * msPerDay"
    by (simp add: algebra_simps)
  then show ?thesis
    by (simp add: ymd_def shiftDate_def newDate_def msPerDay_def)
qed

lemma ymd_shift_east: "- 1440 < tz \<Longrightarrow> tz \<le> 0 \<Longrightarrow> ymd tz (shiftDate (newDate d) k) = d + k"
  by (simp add: ymd_shift msPerDay_def)

lemma ymd_shift_west: "0 < tz \<Longrightarrow> tz \<le> 1440 \<Longrightarrow> ymd tz (shiftDate (newDate d) k) = d + k - 1"
proof -
  assume a: "0 < tz" "tz \<le> 1440"
  have "(- (tz * 60000)) div 86400000 = - 1"
    by (rule int_div_pos_eq [where r = "86400000 - tz * 60000"]) (use a in simp_all)
  then show ?thesis by (simp add: ymd_shift msPerDay_def)
qed

lemma has_event_schedule:
  "has_event sched tid x \<longleftrightarrow>
     (\<exists>f. getScheduleForDate sched tid x = Some f \<and> sGamePk f \<noteq> 0)"
  by (auto simp: has_event_def getScheduleForDate_def split: option.splits)

lemma scan_days_east:
  assumes "- 1440 < tz" and "tz \<le> 0"
  shows "scan_days tz sched tid d dir ks =
    (case find (has_event sched tid) (map (\<lambda>k. d + dir * k) ks) of
       None \<Rightarrow> (None, map (\<lambda>k. d + dir * k) ks)
     | Some x \<Rightarrow> (getScheduleForDate sched tid x,
         takeWhile (\<lambda>y. \<not> has_event sched tid y) (map (\<lambda>k. d + dir * k) ks) @ [x]))"
proof (induction ks)
  case Nil
  show ?case by simp
next
  case (Cons k ks)
  show ?case
  proof (cases "has_event sched tid (d + dir * k)")
    case True
    then show ?thesis
      by (auto simp: has_event_schedule ymd_shift_east [OF assms] Let_def)
  next
    case False
    then show ?thesis
      by (auto simp: has_event_schedule ymd_shift_east [OF assms] Let_def Cons.IH
          split: option.splits)
  qed
qed

lemma find_append:
  "find P (xs @ ys) = (case find P xs of None \<Rightarrow> find P ys | Some x \<Rightarrow> Some x)"
  by (induction xs) simp_all

lemma takeWhile_not_found:
  "find P xs = None \<Longrightarrow> takeWhile (\<lambda>y. \<not> P y) (xs @ ys) = xs @ takeWhile (\<lambda>y. \<not> P y) ys"
  by (induction xs) (simp_all split: if_splits)

lemma takeWhile_found:
  "find P xs = Some x \<Longrightarrow> takeWhile (\<lambda>y. \<not> P y) (xs @ ys) = takeWhile (\<lambda>y. \<not> P y) xs"
  by (induction xs) (simp_all split: if_splits)

lemma takeWhile_none: "find P xs = None \<Longrightarrow> takeWhile (\<lambda>y. \<not> P y) xs = xs"
  by (induction xs) (simp_all split: if_splits)

lemma window_split:
  "window d = d # map (\<lambda>k. d + - 1 * k) [1, 2, 3] @ map (\<lambda>k. d + 1 * k) [1, 2, 3]"
  by (simp add: window_def)

text \<open>
  With the clock on UTC or east of it, the resolver does search the window in the order
  of the specification: it answers with the first day of the window that has an event,
  after asking for the days up to that one, and fails when the window has none.
\<close>

lemma resolveGamePkIfNeeded_east_of_greenwich:
  assumes "- 1440 < tz" and "tz \<le> 0" and "getTeamIdByName lc ft tm = Inr tid"
  shows "resolveGamePkIfNeeded lc tz ft sched tm d None False =
    (case find (has_event sched tid) (window d) of
       None \<Rightarrow> (Inl NoEventFoundError, window d)
     | Some x \<Rightarrow> (Inr (show_int (case sched tid x of None \<Rightarrow> 0 | Some g \<Rightarrow> gamePk g)),
         takeWhile (\<lambda>y. \<not> has_event sched tid y) (window d) @ [x]))"
proof -
  let ?P = "has_event sched tid"
  let ?A = "map (\<lambda>k. d + - 1 * k) [1, 2, 3]" and ?B = "map (\<lambda>k. d + 1 * k) [1, 2, 3]"
  let ?pk = "\<lambda>x. case sched tid x of None \<Rightarrow> 0 | Some g \<Rightarrow> gamePk g"
  have pk: "sGamePk f = ?pk x" if "getScheduleForDate sched tid x = Some f" for x f
    using that by (auto simp: getScheduleForDate_def split: option.splits)
  have hit: "\<exists>f. getScheduleForDate sched tid x = Some f \<and> sGamePk f \<noteq> 0"
    if "find ?P xs = Some x" for xs x
    using that by (auto simp: find_Some_iff has_event_schedule)
  have res: "resolveGamePkIfNeeded lc tz ft sched tm d None False =
    (case (case getScheduleForDate sched tid d of None \<Rightarrow> None
            | Some exact \<Rightarrow> if sGamePk exact \<noteq> 0 then Some exact else None) of
       Some exact \<Rightarrow> (Inr (show_int (sGamePk exact)), [d])
     | None \<Rightarrow>
        (case scan_days tz sched tid d (- 1) [1, 2, 3] of
           (Some back, q1) \<Rightarrow> (Inr (show_int (sGamePk back)), d # q1)
         | (None, q1) \<Rightarrow>
        (case scan_days tz sched tid d 1 [1, 2, 3] of
           (Some fwd, q2) \<Rightarrow> (Inr (show_int (sGamePk fwd)), d # q1 @ q2)
         | (None, q2) \<Rightarrow> (Inl NoEventFoundError, d # q1 @ q2))))"
    using assms(3) by (simp add: resolveGamePkIfNeeded_def)
  show ?thesis
  proof (cases "?P d")
    case True
    then obtain f where f: "getScheduleForDate sched tid d = Some f" "sGamePk f \<noteq> 0"
      by (auto simp: has_event_schedule)
    with True pk [OF f(1)] show ?thesis
      unfolding res window_split by simp
  next
    case False
    then have exact: "(case getScheduleForDate sched tid d of None \<Rightarrow> None
        | Some exact \<Rightarrow> if sGamePk exact \<noteq> 0 then Some exact else None) = None"
      by (auto simp: has_event_schedule split: option.splits)
    show ?thesis
    proof (cases "find ?P ?A")
      case (Some x)
      from hit [OF Some] obtain f where f: "getScheduleForDate sched tid x = Some f"
        "sGamePk f \<noteq> 0" by blast
      have "scan_days tz sched tid d (- 1) [1, 2, 3]
          = (Some f, takeWhile (\<lambda>y. \<not> ?P y) ?A @ [x])"
        unfolding scan_days_east [OF assms(1,2)] Some using f by simp
      with False Some pk [OF f(1)] show ?thesis
        unfolding res exact window_split
        by (simp add: find_append takeWhile_found del: scan_days.simps list.map)
    next
      case None
      have past: "scan_days tz sched tid d (- 1) [1, 2, 3] = (None, ?A)"
        unfolding scan_days_east [OF assms(1,2)] None by simp
      show ?thesis
      proof (cases "find ?P ?B")
        case (Some x)
        from hit [OF Some] obtain f where f: "getScheduleForDate sched tid x = Some f"
          "sGamePk f \<noteq> 0" by blast
        have "scan_days tz sched tid d 1 [1, 2, 3]
            = (Some f, takeWhile (\<lambda>y. \<not> ?P y) ?B @ [x])"
          unfolding scan_days_east [OF assms(1,2)] Some using f by simp
        with False None Some past pk [OF f(1)] show ?thesis
          unfolding res exact window_split
          by (simp add: find_append takeWhile_not_found del: scan_days.simps list.map)
      next
        case none: None
        have "scan_days tz sched tid d 1 [1, 2, 3] = (None, ?B)"
          unfolding scan_days_east [OF assms(1,2)] none by simp
        with False None none past show ?thesis
          unfolding res exact window_split
          by (simp add: find_append del: scan_days.simps list.map)
      qed
    qed
  qed
qed

lemma scan_days_none:
  "\<forall>k \<in> set ks. \<not> has_event sched tid (ymd tz (shiftDate (newDate d) (dir * k))) \<Longrightarrow>
   scan_days tz sched tid d dir ks
     = (None, map (\<lambda>k. ymd tz (shiftDate (newDate d) (dir * k))) ks)"
  by (induction ks) (auto simp: has_event_schedule Let_def split: option.splits)

text \<open>
  West of Greenwich the search has two blind spots, the day before and the third day
  after: when the other days of the window and the fourth day before have no event, the
  resolver fails, and these are the days it asked for.
\<close>

lemma resolveGamePkIfNeeded_west_of_greenwich:
  assumes "0 < tz" and "tz \<le> 1440" and "getTeamIdByName lc ft tm = Inr tid"
    and "\<forall>x \<in> {d, d - 2, d - 3, d - 4, d + 1, d + 2}. \<not> has_event sched tid x"
  shows "resolveGamePkIfNeeded lc tz ft sched tm d None False
    = (Inl NoEventFoundError, [d, d - 2, d - 3, d - 4, d, d + 1, d + 2])"
proof -
  have exact: "(case getScheduleForDate sched tid d of None \<Rightarrow> None
      | Some exact \<Rightarrow> if sGamePk exact \<noteq> 0 then Some exact else None) = None"
    using assms(4) by (auto simp: has_event_schedule split: option.splits)
  have past: "scan_days tz sched tid d (- 1) [1, 2, 3] = (None, [d - 2, d - 3, d - 4])"
    using assms(4) by (subst scan_days_none) (simp_all add: ymd_shift_west [OF assms(1,2)])
  have future: "scan_days tz sched tid d 1 [1, 2, 3] = (None, [d, d + 1, d + 2])"
    using assms(4)
    by (subst scan_days_none) (simp_all add: ymd_shift_west [OF assms(1,2)] add.commute)
  show ?thesis
    using assms(3)
    by (simp add: resolveGamePkIfNeeded_def exact past future del: scan_days.simps)
qed

text \<open>
  The scenario of the specification, on UTC: games on the second day before and on the
  day after only; the earlier one is found, by the third request.
\<close>

lemma resolve_spec_scenario_utc:
  "resolveGamePkIfNeeded ascii_lower 0 (Inr ex_teams) ex_sched2 ''Glendale Desert Dogs'' 20376 None False
     = (Inr ''813040'', [20376, 20375, 20374])"
  by code_simp

text \<open>
  Claim C6 (code bug). The fallback days are computed with \<open>new Date(date)\<close>, which
  reads the day as midnight UTC, and printed with \<open>ymd\<close>, which prints the local day.
  West of Greenwich the local day of midnight UTC is the day before, so every fallback
  day is one day early: in Phoenix (offset 420 minutes) the search for 2025-10-15 (day
  20376) never asks for the day before, 20375, and fails although that day has a game.
\<close>

theorem resolve_west_of_greenwich_skips_yesterday:
  "has_event ex_sched 2 (20376 - 1)
   \<and> resolveGamePkIfNeeded ascii_lower 420 (Inr ex_teams) ex_sched ''Glendale Desert Dogs'' 20376 None False
       = (Inl NoEventFoundError, [20376, 20374, 20373, 20372, 20376, 20377, 20378])"
  by code_simp

section \<open>Status of a player: properties\<close>

lemma findByName_None_iff:
  "findByName lc pn sd = None \<longleftrightarrow>
     (\<forall>p \<in> set (players sd). \<forall>n. fullName p = Some n \<longrightarrow> lc n \<noteq> lc pn)"
  by (auto simp: findByName_def find_None_iff split: option.splits)

text \<open>
  Claim C9, as the specification states it, fails: the team filter is checked before the
  rosters, so a query whose team is not one of the two of the game is answered with 409
  and \<open>TEAM_MISMATCH\<close>, whoever is on the rosters.
\<close>

theorem unlisted_player_team_mismatch:
  "q_simulate (ex_query ''Yankees'') \<noteq> Some ''1''
   \<and> boxHome ex_feed_unlisted \<noteq> None \<and> boxAway ex_feed_unlisted \<noteq> None
   \<and> findByName ascii_lower ''Cade Doughty'' \<lparr>players = []\<rparr> = None
   \<and> findByName ascii_lower ''Cade Doughty'' \<lparr>players = [ex_other_player]\<rparr> = None
   \<and> boxHome ex_feed_unlisted = Some \<lparr>players = []\<rparr>
   \<and> boxAway ex_feed_unlisted = Some \<lparr>players = [ex_other_player]\<rparr>
   \<and> httpStatus (playerStatus ascii_lower (ex_query ''Yankees'') (Inr ex_feed_unlisted)) = 409
   \<and> r_code (playerStatus ascii_lower (ex_query ''Yankees'') (Inr ex_feed_unlisted)) = Some ''TEAM_MISMATCH''"
  by code_simp

text \<open>
  Claim C9, amended: a one-shot status query that is not simulated, names a game and a
  player, gets a feed with both sides of the box score, and whose team filter is absent
  or contained in the name of one of the two teams, is answered with 404 and
  \<open>PLAYER_NOT_IN_GAME\<close>, and with no \<open>inGame\<close> value, when no roster entry of
  either side has the player's name.
\<close>

theorem unlisted_player_404:
  assumes "q_simulate q \<noteq> Some ''1''"
    and "truthy_str (q_gamePk q)" and "truthy_str (q_playerName q)"
    and "boxHome data = Some home" and "boxAway data = Some away"
    and "\<not> truthy_str (q_team q)
         \<or> str_includes (lc (or_empty (homeName data))) (lc (or_empty (q_team q)))
         \<or> str_includes (lc (or_empty (awayName data))) (lc (or_empty (q_team q)))"
    and "\<forall>p \<in> set (players home) \<union> set (players away). \<forall>n. fullName p = Some n
           \<longrightarrow> lc n \<noteq> lc (or_empty (q_playerName q))"
  shows "httpStatus (playerStatus lc q (Inr data)) = 404
         \<and> r_code (playerStatus lc q (Inr data)) = Some ''PLAYER_NOT_IN_GAME''
         \<and> r_inGame (playerStatus lc q (Inr data)) = None"
proof -
  have "findByName lc (or_empty (q_playerName q)) home = None"
    and "findByName lc (or_empty (q_playerName q)) away = None"
    using assms(7) by (auto simp: findByName_None_iff)
  with assms(1-6) show ?thesis
    by (simp add: playerStatus_def empty_reply_def Let_def)
qed

theorem unlisted_player_404_witness:
  "httpStatus (playerStatus ascii_lower (ex_query ''desert dogs'') (Inr ex_feed_unlisted)) = 404
   \<and> r_code (playerStatus ascii_lower (ex_query ''desert dogs'') (Inr ex_feed_unlisted))
       = Some ''PLAYER_NOT_IN_GAME''
   \<and> r_inGame (playerStatus ascii_lower (ex_query ''desert dogs'') (Inr ex_feed_unlisted)) = None"
proof (rule unlisted_player_404)
  show "q_simulate (ex_query ''desert dogs'') \<noteq> Some ''1''"
    by (simp add: ex_query_def)
  show "truthy_str (q_gamePk (ex_query ''desert dogs''))"
    and "truthy_str (q_playerName (ex_query ''desert dogs''))"
    by (simp_all add: ex_query_def)
  show "boxHome ex_feed_unlisted = Some \<lparr>players = []\<rparr>"
    and "boxAway ex_feed_unlisted = Some \<lparr>players = [ex_other_player]\<rparr>"
    by (simp_all add: ex_feed_unlisted_def ex_feed_def)
  show "\<not> truthy_str (q_team (ex_query ''desert dogs''))
      \<or> str_includes (ascii_lower (or_empty (homeName ex_feed_unlisted)))
           (ascii_lower (or_empty (q_team (ex_query ''desert dogs''))))
      \<or> str_includes (ascii_lower (or_empty (awayName ex_feed_unlisted)))
           (ascii_lower (or_empty (q_team (ex_query ''desert dogs''))))"
    by code_simp
  show "\<forall>p \<in> set (players \<lparr>players = []\<rparr>) \<union> set (players \<lparr>players = [ex_other_player]\<rparr>).
      \<forall>n. fullName p = Some n
        \<longrightarrow> ascii_lower n \<noteq> ascii_lower (or_empty (q_playerName (ex_query ''desert dogs'')))"
  proof -
    have "ascii_lower ''John Smith'' \<noteq> ascii_lower ''Cade Doughty''"
      by code_simp
    then show ?thesis
      by (simp add: ex_other_player_def ex_query_def)
  qed
qed

section \<open>The watcher: one run of the loop\<close>

lemma heap_modify [simp]:
  "heap (modify i f s) j = (if j = i then map_option f (heap s i) else heap s j)"
  by (simp add: modify_def)

lemma watchers_modify [simp]: "watchers (modify i f s) = watchers s"
  by (simp add: modify_def)

lemma heap_scheduleNext:
  "heap s i = Some w \<Longrightarrow>
   heap (scheduleNext i ms s) i = Some (if stopped w then w else w\<lparr>timer := Some ms\<rparr>)"
  by (simp add: scheduleNext_def)

lemma heap_scheduleNext_other: "j \<noteq> i \<Longrightarrow> heap (scheduleNext i ms s) j = heap s j"
  by (simp add: scheduleNext_def split: option.splits)

lemma watchers_scheduleNext [simp]: "watchers (scheduleNext i ms s) = watchers s"
  by (simp add: scheduleNext_def split: option.splits)

lemma heap_stopWatcher:
  "heap s i = Some w \<Longrightarrow>
   heap (snd (stopWatcher i s)) i =
     Some (if i \<in> set (watchers s) then w\<lparr>stopped := True, timer := None\<rparr> else w)"
  by (simp add: stopWatcher_def)

lemma heap_stopWatcher_other: "j \<noteq> i \<Longrightarrow> heap (snd (stopWatcher i s)) j = heap s j"
  by (simp add: stopWatcher_def)

lemma watchers_stopWatcher [simp]:
  "watchers (snd (stopWatcher i s)) = removeAll i (watchers s)"
  by (simp add: stopWatcher_def)

lemma no_effects_simps [simp]:
  "alerted no_effects = False" "emails no_effects = []" "logs no_effects = []"
  by (simp_all add: no_effects_def)

lemma live_iff: "heap s i = Some w \<Longrightarrow> live i s \<longleftrightarrow> \<not> stopped w \<and> i \<in> set (watchers s)"
  by (simp add: live_def)

lemma armed_iff: "heap s i = Some w \<Longrightarrow> armed i s \<longleftrightarrow> timer w \<noteq> None"
  by (simp add: armed_def)

lemma loop_failed:
  "heap s i = Some w \<Longrightarrow> getStatusOnce lc (wparams w) (fetched p) = Inl e \<Longrightarrow>
   loop lc i p s = (scheduleNext i POLL_SLOW s, no_effects\<lparr>logs := [''Watcher error: '' @ message e]\<rparr>)"
  by (simp add: loop_def)

lemma loop_quiet:
  "heap s i = Some w \<Longrightarrow> getStatusOnce lc (wparams w) (fetched p) = Inr st \<Longrightarrow>
   \<not> trigger w st (clock p) \<Longrightarrow>
   loop lc i p s = (scheduleNext i (interval_of lc st)
                  (modify i (\<lambda>w. w\<lparr>lastInGame := inGame st\<rparr>) s), no_effects)"
  by (auto simp: loop_def trigger_def Let_def)

lemma loop_alert:
  "heap s i = Some w \<Longrightarrow> getStatusOnce lc (wparams w) (fetched p) = Inr st \<Longrightarrow>
   trigger w st (clock p) \<Longrightarrow>
   fst (loop lc i p s) =
     (if autoStop (wparams w)
      then snd (stopWatcher i (modify i (\<lambda>w. w\<lparr>lastAlertAt := clock p\<rparr>) s))
      else scheduleNext i (interval_of lc st)
             (modify i (\<lambda>w. w\<lparr>lastInGame := inGame st\<rparr>)
               (modify i (\<lambda>w. w\<lparr>lastAlertAt := clock p\<rparr>) s)))
   \<and> alerted (snd (loop lc i p s))
   \<and> emails (snd (loop lc i p s)) =
       (if truthy_str (emailTo (wparams w))
        then [(or_empty (emailTo (wparams w)), formatAlertText (wparams w) (localTime p) st)]
        else [])
   \<and> logs (snd (loop lc i p s)) =
       (case sendFails p of None \<Rightarrow> []
        | Some e \<Rightarrow> if truthy_str (emailTo (wparams w)) then [''Email error: '' @ message e]
                    else [])"
  by (auto simp: loop_def trigger_def Let_def split: prod.splits)

lemma loop_alerted_iff:
  "heap s i = Some w \<Longrightarrow> getStatusOnce lc (wparams w) (fetched p) = Inr st \<Longrightarrow>
   alerted (snd (loop lc i p s)) \<longleftrightarrow> trigger w st (clock p)"
  using loop_alert [of s i w lc p st] loop_quiet [of s i w lc p st]
  by (cases "trigger w st (clock p)") simp_all

lemma loop_ignores_sendFails: "fst (loop lc i (p\<lparr>sendFails := x\<rparr>) s) = fst (loop lc i p s)"
  by (simp add: loop_def Let_def split: option.splits sum.splits prod.splits)

lemma loop_live:
  assumes "live i s" and "heap s i = Some w"
  shows "\<exists>w1. heap (fst (loop lc i p s)) i = Some w1 \<and> wparams w1 = wparams w
     \<and> (alerted (snd (loop lc i p s)) \<longrightarrow>
          (\<exists>st. getStatusOnce lc (wparams w) (fetched p) = Inr st \<and> trigger w st (clock p))
          \<and> lastAlertAt w1 = clock p)
     \<and> (\<not> alerted (snd (loop lc i p s)) \<longrightarrow> lastAlertAt w1 = lastAlertAt w)
     \<and> (armed i (fst (loop lc i p s)) \<longrightarrow>
          live i (fst (loop lc i p s))
          \<and> (\<forall>st. getStatusOnce lc (wparams w) (fetched p) = Inr st \<longrightarrow> lastInGame w1 = inGame st))"
proof -
  from assms have running: "\<not> stopped w" and reg: "i \<in> set (watchers s)"
    by (simp_all add: live_iff)
  show ?thesis
  proof (cases "getStatusOnce lc (wparams w) (fetched p)")
    case (Inl e)
    with assms(2) running reg show ?thesis
      by (simp add: loop_failed heap_scheduleNext live_iff armed_iff)
  next
    case (Inr st)
    show ?thesis
    proof (cases "trigger w st (clock p)")
      case False
      with Inr assms(2) running reg show ?thesis
        by (simp add: loop_quiet heap_scheduleNext live_iff armed_iff)
    next
      case True
      show ?thesis
      proof (cases "autoStop (wparams w)")
        case stop: True
        with True Inr assms(2) running reg show ?thesis
          using loop_alert [of s i w lc p st]
          by (simp add: heap_stopWatcher live_iff armed_iff)
      next
        case False
        with True Inr assms(2) running reg show ?thesis
          using loop_alert [of s i w lc p st]
          by (simp add: heap_scheduleNext live_iff armed_iff)
      qed
    qed
  qed
qed

lemma getStatusOnce_Inl: "getStatusOnce lc prm f = Inl e \<Longrightarrow> \<not> simulate prm \<and> f = Inl e"
  by (cases f; cases "simulate prm")
     (simp_all add: getStatusOnce_def Let_def split: prod.splits)

lemma getStatusOnce_no_box:
  "\<not> simulate prm \<Longrightarrow> boxHome data = None \<or> boxAway data = None \<Longrightarrow>
   getStatusOnce lc prm (Inr data) =
     Inr \<lparr>inGame = playerAppearedFromPlays lc (allPlays data) (playerName prm),
          side = None, statusBattingOrder = None, statusPosition = None,
          rawGameState = state_of data\<rparr>"
  by (cases "boxHome data"; cases "boxAway data")
     (simp_all add: getStatusOnce_def entered_def)

lemma getStatusOnce_unlisted:
  "\<not> simulate prm \<Longrightarrow> boxHome data = Some home \<Longrightarrow> boxAway data = Some away \<Longrightarrow>
   findByName lc (playerName prm) home = None \<Longrightarrow> findByName lc (playerName prm) away = None \<Longrightarrow>
   getStatusOnce lc prm (Inr data) =
     Inr \<lparr>inGame = playerAppearedFromPlays lc (allPlays data) (playerName prm),
          side = None, statusBattingOrder = None, statusPosition = None,
          rawGameState = state_of data\<rparr>"
  by (simp add: getStatusOnce_def entered_def)

lemma loop_not_in_game:
  assumes "heap s i = Some w" and "getStatusOnce lc (wparams w) (fetched p) = Inr st"
    and "\<not> inGame st"
  shows "loop lc i p s = (scheduleNext i (interval_of lc st)
                        (modify i (\<lambda>w. w\<lparr>lastInGame := False\<rparr>) s), no_effects)"
  using assms loop_quiet [of s i w lc p st] by (simp add: trigger_def)

lemma interval_of_cong: "rawGameState st = rawGameState st' \<Longrightarrow> interval_of lc st = interval_of lc st'"
  by (simp add: interval_of_def)

text \<open>Facts about the example data.\<close>

lemma ex_sys_heap: "heap (ex_sys prm) 1 = Some \<lparr>wid = 1, wparams = prm, lastInGame = False,
    lastAlertAt = 0, stopped = False, timer = None\<rparr>"
  by (simp add: ex_sys_def startAdaptiveWatcher_def init_sys_def Let_def)

lemma ex_sys_start: "startAdaptiveWatcher prm init_sys = (1, ex_sys prm)"
  by (simp add: ex_sys_def startAdaptiveWatcher_def init_sys_def Let_def)

lemma ex_sys_live: "live 1 (ex_sys prm) \<and> ids_ok (ex_sys prm)"
  by (simp add: ex_sys_def startAdaptiveWatcher_def init_sys_def Let_def live_def ids_ok_def)

lemma ex_status_in:
  "getStatusOnce ascii_lower ex_params_once (Inr ex_feed_in)
     = Inr \<lparr>inGame = True, side = Some ''home'', statusBattingOrder = Some ''501'',
            statusPosition = Some ''2B'', rawGameState = ''In Progress''\<rparr>"
  by code_simp

lemma ex_status_bench:
  "getStatusOnce ascii_lower ex_params (Inr ex_feed_bench)
     = Inr \<lparr>inGame = False, side = Some ''home'', statusBattingOrder = None,
            statusPosition = Some ''2B'', rawGameState = ''In Progress''\<rparr>"
  by code_simp

lemma ex_unlisted:
  "findByName ascii_lower ''Cade Doughty'' \<lparr>players = []\<rparr> = None
   \<and> findByName ascii_lower ''Cade Doughty'' \<lparr>players = [ex_other_player]\<rparr> = None
   \<and> \<not> playerAppearedFromPlays ascii_lower (Some [ex_other_play]) ''Cade Doughty''
   \<and> playerAppearedFromPlays ascii_lower (Some [ex_other_play, ex_entry_play]) ''Cade Doughty''"
  by code_simp

text \<open>
  Claim C8: when the status fetch of a poll of a running watcher fails, no alert fires
  and no mail is sent, the error is logged, and the state of the process is as before
  but for the timeout of the watcher, armed for 30000 milliseconds: \<open>lastInGame\<close> and
  \<open>lastAlertAt\<close> are unchanged and the watcher stays registered.
\<close>

theorem poll_failure_contained:
  assumes "heap s i = Some w" and "\<not> stopped w"
    and "\<not> simulate (wparams w)" and "fetched p = Inl err"
  shows "fst (loop lc i p s) = s\<lparr>heap := (heap s)(i \<mapsto> w\<lparr>timer := Some 30000\<rparr>)\<rparr>
       \<and> snd (loop lc i p s) = \<lparr>alerted = False, emails = [],
                               logs = [''Watcher error: '' @ message err]\<rparr>"
proof -
  from assms(3,4) have "getStatusOnce lc (wparams w) (fetched p) = Inl err"
    by (simp add: getStatusOnce_def)
  with assms(1,2) show ?thesis
    by (simp add: loop_failed scheduleNext_def modify_def POLL_SLOW_def no_effects_def)
qed

theorem poll_failure_contained_witness:
  "fst (loop ascii_lower 1 (ex_poll (Inl (ProviderError (Some 503) ''Service Unavailable'')) 0)
         (ex_sys ex_params))
     = (ex_sys ex_params)\<lparr>heap := (heap (ex_sys ex_params))
         (1 \<mapsto> \<lparr>wid = 1, wparams = ex_params, lastInGame = False, lastAlertAt = 0,
                 stopped = False, timer = Some 30000\<rparr>)\<rparr>
   \<and> snd (loop ascii_lower 1 (ex_poll (Inl (ProviderError (Some 503) ''Service Unavailable'')) 0)
            (ex_sys ex_params))
     = \<lparr>alerted = False, emails = [], logs = [''Watcher error: Service Unavailable'']\<rparr>"
proof -
  let ?w = "\<lparr>wid = 1, wparams = ex_params, lastInGame = False, lastAlertAt = 0,
    stopped = False, timer = None\<rparr>"
  let ?err = "ProviderError (Some 503) ''Service Unavailable''"
  have "heap (ex_sys ex_params) 1 = Some ?w"
    by (rule ex_sys_heap)
  moreover have "\<not> stopped ?w" and "\<not> simulate (wparams ?w)"
    by (simp_all add: ex_params_def)
  moreover have "fetched (ex_poll (Inl ?err) 0) = Inl ?err"
    by (simp add: ex_poll_def)
  ultimately show ?thesis
    using poll_failure_contained [of "ex_sys ex_params" 1 ?w "ex_poll (Inl ?err) 0" ?err ascii_lower]
    by simp
qed

lemma list_watchers_ids:
  assumes "ids_ok s"
  shows "sum_id ` set (list_watchers s) \<subseteq> set (watchers s)"
proof
  fix j assume "j \<in> sum_id ` set (list_watchers s)"
  then obtain k w where "k \<in> set (watchers s)" "heap s k = Some w" "j = wid w"
    by (auto simp: list_watchers_def List.map_filter_def summarise_def)
  with assms show "j \<in> set (watchers s)"
    by (auto simp: ids_ok_def)
qed

lemma ids_ok_stop_after_alert:
  assumes "ids_ok s"
  shows "ids_ok (snd (stopWatcher i (modify i (\<lambda>w. w\<lparr>lastAlertAt := t\<rparr>) s)))"
  using assms
  by (auto simp: ids_ok_def stopWatcher_def modify_def split: option.splits)

text \<open>
  Claim C3: when the trigger condition holds on a poll of a running watcher, the alert
  fires and \<open>lastAlertAt\<close> becomes the clock value of the poll; with auto-stop the
  watcher is stopped, its timeout cleared, and it is gone from the registry and from the
  list; without it the watcher stays registered, remembers that the player is in the
  game and has its next poll armed. Whether the mail goes out changes nothing of this:
  a failure is logged only. And \<open>lastAlertAt\<close> changes on no poll but one that alerts.
\<close>

theorem alert_postcondition:
  assumes "live i s" and "ids_ok s" and "heap s i = Some w"
    and "getStatusOnce lc (wparams w) (fetched p) = Inr st" and "trigger w st (clock p)"
  shows "(\<exists>w1. heap (fst (loop lc i p s)) i = Some w1 \<and> lastAlertAt w1 = clock p
          \<and> alerted (snd (loop lc i p s))
          \<and> (autoStop (wparams w) \<longrightarrow>
                stopped w1 \<and> timer w1 = None
                \<and> i \<notin> set (watchers (fst (loop lc i p s)))
                \<and> i \<notin> sum_id ` set (list_watchers (fst (loop lc i p s))))
          \<and> (\<not> autoStop (wparams w) \<longrightarrow>
                \<not> stopped w1 \<and> timer w1 = Some (interval_of lc st) \<and> lastInGame w1
                \<and> i \<in> set (watchers (fst (loop lc i p s)))))
       \<and> (\<forall>x. fst (loop lc i (p\<lparr>sendFails := x\<rparr>) s) = fst (loop lc i p s)
              \<and> alerted (snd (loop lc i (p\<lparr>sendFails := x\<rparr>) s)))
       \<and> (\<forall>e. sendFails p = Some e \<and> truthy_str (emailTo (wparams w))
              \<longrightarrow> logs (snd (loop lc i p s)) = [''Email error: '' @ message e])
       \<and> (\<forall>p' w'. heap (fst (loop lc i p' s)) i = Some w' \<and> lastAlertAt w' \<noteq> lastAlertAt w
              \<longrightarrow> alerted (snd (loop lc i p' s)))"
proof -
  from assms(1,3) have running: "\<not> stopped w" and reg: "i \<in> set (watchers s)"
    by (simp_all add: live_iff)
  note alert = loop_alert [OF assms(3,4,5)]
  have state: "\<exists>w1. heap (fst (loop lc i p s)) i = Some w1 \<and> lastAlertAt w1 = clock p
          \<and> alerted (snd (loop lc i p s))
          \<and> (autoStop (wparams w) \<longrightarrow>
                stopped w1 \<and> timer w1 = None
                \<and> i \<notin> set (watchers (fst (loop lc i p s)))
                \<and> i \<notin> sum_id ` set (list_watchers (fst (loop lc i p s))))
          \<and> (\<not> autoStop (wparams w) \<longrightarrow>
                \<not> stopped w1 \<and> timer w1 = Some (interval_of lc st) \<and> lastInGame w1
                \<and> i \<in> set (watchers (fst (loop lc i p s))))"
  proof (cases "autoStop (wparams w)")
    case True
    let ?s1 = "snd (stopWatcher i (modify i (\<lambda>w. w\<lparr>lastAlertAt := clock p\<rparr>) s))"
    from True alert have s1: "fst (loop lc i p s) = ?s1" by simp
    have "ids_ok ?s1" using assms(2) by (rule ids_ok_stop_after_alert)
    then have "sum_id ` set (list_watchers ?s1) \<subseteq> set (watchers ?s1)"
      by (rule list_watchers_ids)
    then have "i \<notin> sum_id ` set (list_watchers ?s1)"
      by auto
    with True alert assms(3) reg show ?thesis
      unfolding s1 by (simp add: heap_stopWatcher)
  next
    case False
    with alert assms(3,5) running reg show ?thesis
      by (simp add: heap_scheduleNext trigger_def)
  qed
  have send: "\<forall>x. fst (loop lc i (p\<lparr>sendFails := x\<rparr>) s) = fst (loop lc i p s)
              \<and> alerted (snd (loop lc i (p\<lparr>sendFails := x\<rparr>) s))"
    using assms(3,4,5) by (simp add: loop_ignores_sendFails loop_alerted_iff)
  have logged: "\<forall>e. sendFails p = Some e \<and> truthy_str (emailTo (wparams w))
              \<longrightarrow> logs (snd (loop lc i p s)) = [''Email error: '' @ message e]"
    using alert by simp
  have frame: "\<forall>p' w'. heap (fst (loop lc i p' s)) i = Some w' \<and> lastAlertAt w' \<noteq> lastAlertAt w
              \<longrightarrow> alerted (snd (loop lc i p' s))"
  proof (intro allI impI)
    fix p' w'
    assume changed: "heap (fst (loop lc i p' s)) i = Some w' \<and> lastAlertAt w' \<noteq> lastAlertAt w"
    from loop_live [OF assms(1,3), of lc p'] obtain w1 where
      "heap (fst (loop lc i p' s)) i = Some w1"
      "\<not> alerted (snd (loop lc i p' s)) \<longrightarrow> lastAlertAt w1 = lastAlertAt w"
      by blast
    with changed show "alerted (snd (loop lc i p' s))"
      by auto
  qed
  from state send logged frame show ?thesis
    by (intro conjI)
qed


theorem alert_postcondition_witness:
  "(\<exists>w1. heap (fst (loop ascii_lower 1 ((ex_poll (Inr ex_feed_in) 0)
              \<lparr>sendFails := Some (NotifierError ''SendGrid is not configured'')\<rparr>)
              (ex_sys ex_params_once))) 1 = Some w1
        \<and> lastAlertAt w1 = 1762000000000 \<and> stopped w1 \<and> timer w1 = None)
   \<and> 1 \<notin> sum_id ` set (list_watchers (fst (loop ascii_lower 1 ((ex_poll (Inr ex_feed_in) 0)
              \<lparr>sendFails := Some (NotifierError ''SendGrid is not configured'')\<rparr>)
              (ex_sys ex_params_once))))
   \<and> logs (snd (loop ascii_lower 1 ((ex_poll (Inr ex_feed_in) 0)
              \<lparr>sendFails := Some (NotifierError ''SendGrid is not configured'')\<rparr>)
              (ex_sys ex_params_once)))
       = [''Email error: SendGrid is not configured'']"
proof -
  let ?p = "(ex_poll (Inr ex_feed_in) 0)
      \<lparr>sendFails := Some (NotifierError ''SendGrid is not configured'')\<rparr>"
  let ?w = "\<lparr>wid = 1, wparams = ex_params_once, lastInGame = False, lastAlertAt = 0,
      stopped = False, timer = None\<rparr>"
  let ?st = "\<lparr>inGame = True, side = Some ''home'', statusBattingOrder = Some ''501'',
      statusPosition = Some ''2B'', rawGameState = ''In Progress''\<rparr>"
  have heap: "heap (ex_sys ex_params_once) 1 = Some ?w"
    by (rule ex_sys_heap)
  have found: "getStatusOnce ascii_lower (wparams ?w) (fetched ?p) = Inr ?st"
    using ex_status_in by (simp add: ex_poll_def)
  have due: "trigger ?w ?st (clock ?p)"
    by (simp add: trigger_def cooldown_def ex_params_once_def ex_params_def ex_poll_def)
  have stop: "autoStop (wparams ?w)" and mail: "truthy_str (emailTo (wparams ?w))"
    and sf: "sendFails ?p = Some (NotifierError ''SendGrid is not configured'')"
    and clk: "clock ?p = 1762000000000"
    by (simp_all add: autoStop_def ex_params_once_def ex_params_def ex_poll_def)
  from alert_postcondition [OF ex_sys_live [THEN conjunct1] ex_sys_live [THEN conjunct2]
      heap found due] stop mail sf clk
  show ?thesis
    by auto
qed


text \<open>
  Claim C10: \<open>getStatusOnce\<close> throws nothing but what the fetch threw, so it has no
  answer for "not found". For a player on neither roster, or without a box score, the
  roster entry is missing, which the participation heuristic takes as not active: the
  answer has \<open>inGame\<close> from the plays alone and no side, batting order or position.
  The loop of a watcher reads \<open>inGame\<close> and the state label only, so on a poll that
  finds the player not in the game it does the same whether the player is on a roster
  or not.
\<close>

theorem getStatusOnce_never_not_found:
  "(\<forall>e. getStatusOnce lc prm f = Inl e \<longrightarrow> \<not> simulate prm \<and> f = Inl e)
   \<and> (\<forall>data. \<not> simulate prm \<and> f = Inr data
         \<and> (boxHome data = None \<or> boxAway data = None
            \<or> (\<exists>home away. boxHome data = Some home \<and> boxAway data = Some away
                  \<and> findByName lc (playerName prm) home = None
                  \<and> findByName lc (playerName prm) away = None))
       \<longrightarrow> getStatusOnce lc prm f =
             Inr \<lparr>inGame = playerAppearedFromPlays lc (allPlays data) (playerName prm),
                  side = None, statusBattingOrder = None, statusPosition = None,
                  rawGameState = state_of data\<rparr>)
   \<and> \<not> playerAppearedFromBoxscore None
   \<and> (\<forall>i s w p p' st st'. heap s i = Some w \<and> wparams w = prm
         \<and> getStatusOnce lc prm (fetched p) = Inr st \<and> getStatusOnce lc prm (fetched p') = Inr st'
         \<and> \<not> inGame st \<and> \<not> inGame st' \<and> rawGameState st = rawGameState st'
       \<longrightarrow> loop lc i p s = loop lc i p' s)"
proof (intro conjI allI impI)
  fix e assume "getStatusOnce lc prm f = Inl e"
  then show "\<not> simulate prm" and "f = Inl e"
    by (simp_all add: getStatusOnce_Inl)
next
  fix data
  assume "\<not> simulate prm \<and> f = Inr data
         \<and> (boxHome data = None \<or> boxAway data = None
            \<or> (\<exists>home away. boxHome data = Some home \<and> boxAway data = Some away
                  \<and> findByName lc (playerName prm) home = None
                  \<and> findByName lc (playerName prm) away = None))"
  then show "getStatusOnce lc prm f =
             Inr \<lparr>inGame = playerAppearedFromPlays lc (allPlays data) (playerName prm),
                  side = None, statusBattingOrder = None, statusPosition = None,
                  rawGameState = state_of data\<rparr>"
    using getStatusOnce_no_box [of prm data] getStatusOnce_unlisted [of prm data]
    by blast
next
  show "\<not> playerAppearedFromBoxscore None"
    by simp
next
  fix i and s :: sys and w :: wstate and p p' :: poll and st st' :: status
  assume a: "heap s i = Some w \<and> wparams w = prm
         \<and> getStatusOnce lc prm (fetched p) = Inr st \<and> getStatusOnce lc prm (fetched p') = Inr st'
         \<and> \<not> inGame st \<and> \<not> inGame st' \<and> rawGameState st = rawGameState st'"
  then have "loop lc i p s = (scheduleNext i (interval_of lc st)
                        (modify i (\<lambda>w. w\<lparr>lastInGame := False\<rparr>) s), no_effects)"
    and "loop lc i p' s = (scheduleNext i (interval_of lc st')
                        (modify i (\<lambda>w. w\<lparr>lastInGame := False\<rparr>) s), no_effects)"
    by (simp_all add: loop_not_in_game)
  with a show "loop lc i p s = loop lc i p' s"
    by (simp add: interval_of_cong [of st st'])
qed

theorem getStatusOnce_never_not_found_witness:
  "getStatusOnce ascii_lower ex_params (Inr ex_feed_announced)
     = Inr \<lparr>inGame = True, side = None, statusBattingOrder = None, statusPosition = None,
            rawGameState = ''In Progress''\<rparr>
   \<and> loop ascii_lower 1 (ex_poll (Inr ex_feed_unlisted) 0) (ex_sys ex_params)
     = loop ascii_lower 1 (ex_poll (Inr ex_feed_bench) 0) (ex_sys ex_params)"
proof -
  note inst = getStatusOnce_never_not_found [of ascii_lower ex_params]
  have sim: "\<not> simulate ex_params" and nm: "playerName ex_params = ''Cade Doughty''"
    by (simp_all add: ex_params_def)
  have announced: "getStatusOnce ascii_lower ex_params (Inr ex_feed_announced)
     = Inr \<lparr>inGame = True, side = None, statusBattingOrder = None, statusPosition = None,
            rawGameState = ''In Progress''\<rparr>"
    using inst [of "Inr ex_feed_announced", THEN conjunct2, THEN conjunct1, rule_format,
        of ex_feed_announced] sim nm ex_unlisted
    by (simp add: ex_feed_announced_def ex_feed_def state_of_def)
  have unlisted: "getStatusOnce ascii_lower ex_params (Inr ex_feed_unlisted)
     = Inr \<lparr>inGame = False, side = None, statusBattingOrder = None, statusPosition = None,
            rawGameState = ''In Progress''\<rparr>"
    using inst [of "Inr ex_feed_unlisted", THEN conjunct2, THEN conjunct1, rule_format,
        of ex_feed_unlisted] sim nm ex_unlisted
    by (simp add: ex_feed_unlisted_def ex_feed_def state_of_def)
  have "loop ascii_lower 1 (ex_poll (Inr ex_feed_unlisted) 0) (ex_sys ex_params)
     = loop ascii_lower 1 (ex_poll (Inr ex_feed_bench) 0) (ex_sys ex_params)"
    using inst [of "Inr ex_feed_unlisted", THEN conjunct2, THEN conjunct2, THEN conjunct2, rule_format,
        of "ex_sys ex_params" 1 _ "ex_poll (Inr ex_feed_unlisted) 0" _
           "ex_poll (Inr ex_feed_bench) 0"]
      ex_sys_heap [of ex_params] unlisted ex_status_bench
    by (simp add: ex_poll_def)
  with announced show ?thesis
    by simp
qed

section \<open>The watcher: runs of the loop\<close>

lemma run_Cons:
  "run lc i (p # ps) s =
     (if armed i (fst (loop lc i p s))
      then (fst (run lc i ps (fst (loop lc i p s))), snd (loop lc i p s) # snd (run lc i ps (fst (loop lc i p s))))
      else (fst (loop lc i p s), [snd (loop lc i p s)]))"
  by (simp add: case_prod_beta Let_def)

declare run.simps(2) [simp del]

lemma active_Inr: "getStatusOnce lc prm (fetched p) = Inr st \<Longrightarrow> active lc prm p = inGame st"
  by (simp add: active_def)

lemma succeededE: "succeeded lc prm p \<Longrightarrow> \<exists>st. getStatusOnce lc prm (fetched p) = Inr st"
  by (simp add: succeeded_def split: sum.splits)

lemma active_succeeded: "active lc prm p \<Longrightarrow> succeeded lc prm p"
  by (simp add: active_def succeeded_def split: sum.splits)

lemma run_edge:
  "live i s \<Longrightarrow> heap s i = Some w \<Longrightarrow> \<forall>p \<in> set ps. succeeded lc (wparams w) p \<Longrightarrow>
   k < length (snd (run lc i ps s)) \<Longrightarrow> alerted (snd (run lc i ps s) ! k) \<Longrightarrow>
   map (active lc (wparams w)) ps ! k \<and> \<not> (lastInGame w # map (active lc (wparams w)) ps) ! k"
proof (induction ps arbitrary: s w k)
  case Nil
  then show ?case by simp
next
  case (Cons p ps)
  from Cons.prems(3) obtain st where st: "getStatusOnce lc (wparams w) (fetched p) = Inr st"
    by (auto dest: succeededE)
  from loop_live [OF Cons.prems(1,2), of lc p] st obtain w1 where
    w1: "heap (fst (loop lc i p s)) i = Some w1" "wparams w1 = wparams w"
    and al: "alerted (snd (loop lc i p s)) \<Longrightarrow> trigger w st (clock p)"
    and ar: "armed i (fst (loop lc i p s)) \<Longrightarrow> live i (fst (loop lc i p s)) \<and> lastInGame w1 = inGame st"
    by auto
  show ?case
  proof (cases k)
    case 0
    with Cons.prems(5) have "alerted (snd (loop lc i p s))"
      by (simp add: run_Cons split: if_splits)
    then have "trigger w st (clock p)" by (rule al)
    with 0 st show ?thesis
      by (simp add: trigger_def active_Inr)
  next
    case (Suc k')
    with Cons.prems(4) have armed: "armed i (fst (loop lc i p s))"
      by (simp add: run_Cons split: if_splits)
    with Suc Cons.prems(4,5) have
      "k' < length (snd (run lc i ps (fst (loop lc i p s))))"
      "alerted (snd (run lc i ps (fst (loop lc i p s))) ! k')"
      by (simp_all add: run_Cons)
    moreover from ar armed have "live i (fst (loop lc i p s))" "lastInGame w1 = inGame st"
      by simp_all
    moreover from Cons.prems(3) w1 have "\<forall>p \<in> set ps. succeeded lc (wparams w1) p"
      by simp
    ultimately have "map (active lc (wparams w1)) ps ! k'
        \<and> \<not> (lastInGame w1 # map (active lc (wparams w1)) ps) ! k'"
      using Cons.IH [of "fst (loop lc i p s)" w1 k'] w1(1) by blast
    with Suc w1(2) \<open>lastInGame w1 = inGame st\<close> st show ?thesis
      by (simp add: active_Inr)
  qed
qed

lemma alert_times_Cons:
  "alert_times (p # ps) (e # es) = (if alerted e then clock p # alert_times ps es else alert_times ps es)"
  by (simp add: alert_times_def)

lemma alert_times_Nil [simp]: "alert_times ps [] = []" "alert_times [] es = []"
  by (simp_all add: alert_times_def)

lemma run_spacing:
  "live i s \<Longrightarrow> heap s i = Some w \<Longrightarrow> 0 \<le> cooldown (wparams w) \<Longrightarrow>
   (\<forall>t \<in> set (alert_times ps (snd (run lc i ps s))). cooldown (wparams w) * 1000 \<le> t - lastAlertAt w)
   \<and> sorted_wrt (\<lambda>a b. cooldown (wparams w) * 1000 \<le> b - a) (alert_times ps (snd (run lc i ps s)))"
proof (induction ps arbitrary: s w)
  case Nil
  then show ?case by simp
next
  case (Cons p ps)
  let ?s1 = "fst (loop lc i p s)" and ?e = "snd (loop lc i p s)" and ?c = "cooldown (wparams w) * 1000"
  from loop_live [OF Cons.prems(1,2), of lc p] obtain w1 where
    w1: "heap ?s1 i = Some w1" "wparams w1 = wparams w"
    and al: "alerted ?e \<Longrightarrow> (\<exists>st. trigger w st (clock p)) \<and> lastAlertAt w1 = clock p"
    and nal: "\<not> alerted ?e \<Longrightarrow> lastAlertAt w1 = lastAlertAt w"
    and ar: "armed i ?s1 \<Longrightarrow> live i ?s1"
    by auto
  have c0: "0 \<le> ?c" using Cons.prems(3) by simp
  have first: "alerted ?e \<Longrightarrow> ?c \<le> clock p - lastAlertAt w"
    using al by (auto simp: trigger_def)
  show ?case
  proof (cases "armed i ?s1")
    case False
    with first show ?thesis
      by (simp add: run_Cons alert_times_Cons)
  next
    case True
    with ar have "live i ?s1" by simp
    from Cons.IH [OF this w1(1)] Cons.prems(3) w1(2)
    have IH: "\<forall>t \<in> set (alert_times ps (snd (run lc i ps ?s1))). ?c \<le> t - lastAlertAt w1"
      "sorted_wrt (\<lambda>a b. ?c \<le> b - a) (alert_times ps (snd (run lc i ps ?s1)))"
      by simp_all
    show ?thesis
    proof (cases "alerted ?e")
      case alert: True
      with al have "lastAlertAt w1 = clock p" by simp
      with IH True alert first c0 show ?thesis
        by (fastforce simp: run_Cons alert_times_Cons)
    next
      case False
      with nal have "lastAlertAt w1 = lastAlertAt w" by simp
      with IH True False show ?thesis
        by (simp add: run_Cons alert_times_Cons)
    qed
  qed
qed

lemma startAdaptiveWatcher_fresh:
  "startAdaptiveWatcher prm s = (i, s0) \<Longrightarrow>
   live i s0 \<and> heap s0 i = Some \<lparr>wid = i, wparams = prm, lastInGame = False, lastAlertAt = 0,
                                   stopped = False, timer = None\<rparr>"
  by (auto simp: startAdaptiveWatcher_def Let_def live_def)

lemma run_head: "\<exists>es. snd (run lc i (p # ps) s) = snd (loop lc i p s) # es"
  by (simp add: run_Cons)

lemma only_first_alerts:
  assumes "\<forall>k < length (e # es). alerted ((e # es) ! k) \<longrightarrow> k = 0"
  shows "length (filter alerted (e # es)) = (if alerted e then 1 else 0)"
proof -
  have "\<not> alerted x" if "x \<in> set es" for x
  proof -
    from that obtain k where "k < length es" "es ! k = x"
      by (auto simp: in_set_conv_nth)
    with assms [rule_format, of "Suc k"] show ?thesis
      by auto
  qed
  then have "filter alerted es = []"
    by (simp add: filter_empty_conv)
  then show ?thesis
    by simp
qed

text \<open>
  Claim C1, as the specification states it, fails: the first active poll alerts only if
  the cooldown has elapsed since \<open>lastAlertAt\<close>, which starts at 0. With a cooldown
  of 2000000000 seconds, longer than the time since 1970, three active polls in a row
  fire no alert at all.
\<close>

theorem no_alert_within_first_cooldown:
  "active ascii_lower ex_params_patient (ex_poll (Inr ex_feed_in) 0)
   \<and> active ascii_lower ex_params_patient (ex_poll (Inr ex_feed_in) 5000)
   \<and> active ascii_lower ex_params_patient (ex_poll (Inr ex_feed_in) 10000)
   \<and> map alerted (snd (run ascii_lower 1 [ex_poll (Inr ex_feed_in) 0, ex_poll (Inr ex_feed_in) 5000,
                               ex_poll (Inr ex_feed_in) 10000] (ex_sys ex_params_patient)))
       = [False, False, False]"
  by code_simp

text \<open>
  Claim C1, amended: over successful polls of a watcher an alert fires on a poll only if
  the previous poll found the player not active (before the first poll: \<open>lastInGame\<close>
  is false) and this poll finds the player active. On three active polls in a row from
  the start, no alert fires on the second or third, and exactly one fires, on the first,
  if the cooldown has elapsed by then since \<open>lastAlertAt = 0\<close>, that is, if
  \<open>cooldownSec * 1000\<close> is at most the clock value of the first poll; otherwise none
  fires.
\<close>

theorem alerts_only_on_rising_edge:
  assumes "startAdaptiveWatcher prm s = (i, s0)"
  shows "((\<forall>p \<in> set ps. succeeded lc prm p) \<longrightarrow>
            (\<forall>k < length (snd (run lc i ps s0)). alerted (snd (run lc i ps s0) ! k)
               \<longrightarrow> map (active lc prm) ps ! k \<and> \<not> (False # map (active lc prm) ps) ! k))
       \<and> (active lc prm p1 \<and> active lc prm p2 \<and> active lc prm p3 \<longrightarrow>
            length (filter alerted (snd (run lc i [p1, p2, p3] s0)))
              = (if cooldown prm * 1000 \<le> clock p1 then 1 else 0)
            \<and> (\<forall>k < length (snd (run lc i [p1, p2, p3] s0)).
                  alerted (snd (run lc i [p1, p2, p3] s0) ! k) \<longrightarrow> k = 0))"
proof -
  let ?w = "\<lparr>wid = i, wparams = prm, lastInGame = False, lastAlertAt = 0,
             stopped = False, timer = None\<rparr>"
  from startAdaptiveWatcher_fresh [OF assms]
  have live: "live i s0" and heap: "heap s0 i = Some ?w"
    by simp_all
  have edge: "map (active lc prm) qs ! k \<and> \<not> (False # map (active lc prm) qs) ! k"
    if "\<forall>p \<in> set qs. succeeded lc prm p" "k < length (snd (run lc i qs s0))"
      "alerted (snd (run lc i qs s0) ! k)" for qs k
    using run_edge [where ps = qs and k = k and lc = lc, OF live heap] that by simp
  have three: "length (filter alerted (snd (run lc i [p1, p2, p3] s0)))
              = (if cooldown prm * 1000 \<le> clock p1 then 1 else 0)
            \<and> (\<forall>k < length (snd (run lc i [p1, p2, p3] s0)).
                  alerted (snd (run lc i [p1, p2, p3] s0) ! k) \<longrightarrow> k = 0)"
    if act: "active lc prm p1 \<and> active lc prm p2 \<and> active lc prm p3"
  proof -
    let ?es = "snd (run lc i [p1, p2, p3] s0)"
    from act have ok: "\<forall>p \<in> set [p1, p2, p3]. succeeded lc prm p"
      by (simp add: active_succeeded)
    have first: "k = 0" if "k < length ?es" "alerted (?es ! k)" for k
    proof (rule ccontr)
      assume "k \<noteq> 0"
      then obtain j where j: "k = Suc j" by (cases k) auto
      from that(1) have "length ?es \<le> 3"
        by (simp add: run_Cons)
      with that(1) j have "j < 3" by simp
      with edge [OF ok that] act j show False
        by (auto simp: less_Suc_eq numeral_3_eq_3)
    qed
    from act obtain st where st: "getStatusOnce lc prm (fetched p1) = Inr st" "inGame st"
      by (auto simp: active_def split: sum.splits)
    obtain es where es: "?es = snd (loop lc i p1 s0) # es"
      using run_head [of lc i p1 "[p2, p3]" s0] by blast
    have "alerted (snd (loop lc i p1 s0)) \<longleftrightarrow> cooldown prm * 1000 \<le> clock p1"
      using loop_alerted_iff [OF heap, of lc p1 st] st by (simp add: trigger_def)
    moreover have "length (filter alerted ?es) = (if alerted (snd (loop lc i p1 s0)) then 1 else 0)"
      unfolding es by (rule only_first_alerts) (use first es in auto)
    ultimately show ?thesis
      using first by auto
  qed
  from edge three show ?thesis
    by blast
qed


theorem alerts_only_on_rising_edge_witness:
  "active ascii_lower ex_params (ex_poll (Inr ex_feed_in) 0)
   \<and> active ascii_lower ex_params (ex_poll (Inr ex_feed_in) 5000)
   \<and> active ascii_lower ex_params (ex_poll (Inr ex_feed_in) 10000)
   \<and> length (filter alerted (snd (run ascii_lower 1 [ex_poll (Inr ex_feed_in) 0,
         ex_poll (Inr ex_feed_in) 5000, ex_poll (Inr ex_feed_in) 10000] (ex_sys ex_params)))) = 1"
proof -
  have act: "active ascii_lower ex_params (ex_poll (Inr ex_feed_in) 0)
      \<and> active ascii_lower ex_params (ex_poll (Inr ex_feed_in) 5000)
      \<and> active ascii_lower ex_params (ex_poll (Inr ex_feed_in) 10000)"
    by code_simp
  have due: "cooldown ex_params * 1000 \<le> clock (ex_poll (Inr ex_feed_in) 0)"
    by (simp add: cooldown_def ex_params_def ex_poll_def)
  from alerts_only_on_rising_edge [OF ex_sys_start, THEN conjunct2, rule_format, OF act]
    due act
  show ?thesis
    by simp
qed

text \<open>
  Claim C2: the alerts of a watcher are at least the cooldown apart; a rising edge fires
  an alert exactly if the cooldown, in milliseconds, has elapsed since \<open>lastAlertAt\<close>;
  and the cooldown is 300 seconds when \<open>cooldownSec\<close> is not given.
\<close>

theorem cooldown_between_alerts:
  assumes "startAdaptiveWatcher prm s = (i, s0)"
  shows "(\<forall>a b. a < b \<and> b < length (alert_times ps (snd (run lc i ps s0)))
            \<longrightarrow> cooldown prm * 1000
                  \<le> \<bar>alert_times ps (snd (run lc i ps s0)) ! b - alert_times ps (snd (run lc i ps s0)) ! a\<bar>)
       \<and> (\<forall>s' w p st. heap s' i = Some w \<and> wparams w = prm
              \<and> getStatusOnce lc prm (fetched p) = Inr st \<and> \<not> lastInGame w \<and> inGame st
            \<longrightarrow> (alerted (snd (loop lc i p s'))
                   \<longleftrightarrow> cooldown prm * 1000 \<le> clock p - lastAlertAt w))
       \<and> (cooldownSec prm = None \<longrightarrow> cooldown prm = 300)"
proof (intro conjI allI impI)
  fix a b
  let ?ts = "alert_times ps (snd (run lc i ps s0))"
  assume ab: "a < b \<and> b < length ?ts"
  show "cooldown prm * 1000 \<le> \<bar>?ts ! b - ?ts ! a\<bar>"
  proof (cases "0 \<le> cooldown prm")
    case True
    from startAdaptiveWatcher_fresh [OF assms] run_spacing [of i s0 _ ps lc] True
    have "sorted_wrt (\<lambda>x y. cooldown prm * 1000 \<le> y - x) ?ts"
      by fastforce
    with ab have "cooldown prm * 1000 \<le> ?ts ! b - ?ts ! a"
      by (simp add: sorted_wrt_iff_nth_less)
    then show ?thesis by simp
  next
    case False
    then have "cooldown prm * 1000 < 0" by simp
    then show ?thesis by linarith
  qed
next
  fix s' :: sys and w :: wstate and p :: poll and st :: status
  assume "heap s' i = Some w \<and> wparams w = prm
      \<and> getStatusOnce lc prm (fetched p) = Inr st \<and> \<not> lastInGame w \<and> inGame st"
  then show "alerted (snd (loop lc i p s')) \<longleftrightarrow> cooldown prm * 1000 \<le> clock p - lastAlertAt w"
    using loop_alerted_iff [of s' i w lc p st] by (simp add: trigger_def)
next
  assume "cooldownSec prm = None"
  then show "cooldown prm = 300"
    by (simp add: cooldown_def)
qed

theorem cooldown_between_alerts_witness:
  "map alerted (snd (run ascii_lower 1 ex_polls (ex_sys ex_params))) = [True, False, False, False, True]
   \<and> alert_times ex_polls (snd (run ascii_lower 1 ex_polls (ex_sys ex_params)))
       = [1762000000000, 1762000400000]
   \<and> cooldown ex_params * 1000
       \<le> \<bar>alert_times ex_polls (snd (run ascii_lower 1 ex_polls (ex_sys ex_params))) ! 1
          - alert_times ex_polls (snd (run ascii_lower 1 ex_polls (ex_sys ex_params))) ! 0\<bar>
   \<and> cooldown ex_params = 300"
proof -
  have trace: "map alerted (snd (run ascii_lower 1 ex_polls (ex_sys ex_params)))
      = [True, False, False, False, True]"
    by code_simp
  have times: "alert_times ex_polls (snd (run ascii_lower 1 ex_polls (ex_sys ex_params)))
      = [1762000000000, 1762000400000]"
    by code_simp
  note inst = cooldown_between_alerts [where ps = ex_polls, OF ex_sys_start]
  have "(0::nat) < 1 \<and> 1 < length (alert_times ex_polls (snd (run ascii_lower 1 ex_polls (ex_sys ex_params))))"
    unfolding times by simp
  from inst [THEN conjunct1, rule_format, OF this]
  have apart: "cooldown ex_params * 1000
       \<le> \<bar>alert_times ex_polls (snd (run ascii_lower 1 ex_polls (ex_sys ex_params))) ! 1
          - alert_times ex_polls (snd (run ascii_lower 1 ex_polls (ex_sys ex_params))) ! 0\<bar>" .
  have "cooldownSec ex_params = None"
    by (simp add: ex_params_def)
  from inst [THEN conjunct2, THEN conjunct2, rule_format, OF this]
  have "cooldown ex_params = 300" .
  with trace times apart show ?thesis
    by (intro conjI)
qed

end
